theory Spec2Isabelle
  imports Main
begin

section \<open>Values of the embedded state\<close>

text \<open>
  The crawler works on what \<^verbatim>\<open>json.loads\<close> returns: \<^verbatim>\<open>None\<close>, booleans, numbers,
  strings, lists and dicts. A dict is kept as the list of its key/value pairs in insertion
  order (the order \<^verbatim>\<open>values()\<close> iterates in); lookups take the first pair of a key.
  Python strings are modelled by \<open>string\<close>; the string functions below are the ASCII
  fragment of their Python counterparts. Numbers are integers: the code only ever tests a
  number for truth.
\<close>

datatype json =
    JNull
  | JBool bool
  | JNum int
  | JStr string
  | JList "json list"
  | JDict "(string \<times> json) list"

datatype error =
    AttributeError
  | TypeError
  | ValueError
  | JSONDecodeError
  | RequestError
  | RecursionError

text \<open>Python truth value of a decoded value (\<^verbatim>\<open>bool(x)\<close>).\<close>

fun truthy :: "json \<Rightarrow> bool" where
  "truthy JNull = False"
| "truthy (JBool b) = b"
| "truthy (JNum n) = (n \<noteq> 0)"
| "truthy (JStr s) = (s \<noteq> [])"
| "truthy (JList xs) = (xs \<noteq> [])"
| "truthy (JDict d) = (d \<noteq> [])"

text \<open>\<^verbatim>\<open>a or b\<close>: the first operand when it is true, else the second.\<close>

definition py_or :: "json \<Rightarrow> json \<Rightarrow> json" where
  "py_or a b = (if truthy a then a else b)"

text \<open>\<^verbatim>\<open>k in d\<close>, \<^verbatim>\<open>d.get(k)\<close> and \<^verbatim>\<open>d.get(k, default)\<close> on a dict.\<close>

definition has_key :: "(string \<times> json) list \<Rightarrow> string \<Rightarrow> bool" where
  "has_key d k = (map_of d k \<noteq> None)"

definition get_or :: "(string \<times> json) list \<Rightarrow> string \<Rightarrow> json \<Rightarrow> json" where
  "get_or d k dflt = (case map_of d k of None \<Rightarrow> dflt | Some v \<Rightarrow> v)"

definition get :: "(string \<times> json) list \<Rightarrow> string \<Rightarrow> json" where
  "get d k = get_or d k JNull"

text \<open>\<^verbatim>\<open>s.startswith(p)\<close> and \<^verbatim>\<open>s.endswith(p)\<close>.\<close>

definition startswith :: "string \<Rightarrow> string \<Rightarrow> bool" where
  "startswith s p = (take (length p) s = p)"

definition endswith :: "string \<Rightarrow> string \<Rightarrow> bool" where
  "endswith s p = (length p \<le> length s \<and> drop (length s - length p) s = p)"

section \<open>The query-string functions of urllib.parse\<close>

text \<open>
  \<^verbatim>\<open>s.split(c)\<close> for a one-character separator: the pieces between the separators, of
  which there is always at least one.
\<close>

fun split_on :: "char \<Rightarrow> string \<Rightarrow> string list" where
  "split_on c [] = [[]]"
| "split_on c (x # xs) =
     (if x = c then [] # split_on c xs
      else (case split_on c xs of
              [] \<Rightarrow> [[x]]
            | p # ps \<Rightarrow> (x # p) # ps))"

text \<open>\<^verbatim>\<open>s.split(c, 1)\<close> when \<open>c\<close> occurs in \<open>s\<close>: what is before and after its first
  occurrence; \<open>None\<close> when it does not occur.\<close>

fun split_first :: "char \<Rightarrow> string \<Rightarrow> (string \<times> string) option" where
  "split_first c [] = None"
| "split_first c (x # xs) =
     (if x = c then Some ([], xs)
      else (case split_first c xs of
              None \<Rightarrow> None
            | Some (a, b) \<Rightarrow> Some (x # a, b)))"

definition hexval :: "char \<Rightarrow> nat option" where
  "hexval c =
     (let n = (of_char c :: nat) in
      if 48 \<le> n \<and> n \<le> 57 then Some (n - 48)
      else if 65 \<le> n \<and> n \<le> 70 then Some (n - 55)
      else if 97 \<le> n \<and> n \<le> 102 then Some (n - 87)
      else None)"

text \<open>
  \<^verbatim>\<open>unquote\<close> splits at \<^verbatim>\<open>%\<close>; a piece after a \<^verbatim>\<open>%\<close> that begins with two hexadecimal
  digits has them replaced by the byte they denote, any other piece keeps its \<^verbatim>\<open>%\<close>.
  (Python then decodes the bytes as UTF-8; on ASCII bytes that changes nothing.)
\<close>

fun unquote_item :: "string \<Rightarrow> string" where
  "unquote_item (a # b # rest) =
     (case (hexval a, hexval b) of
        (Some h, Some l) \<Rightarrow> char_of (16 * h + l) # rest
      | _ \<Rightarrow> CHR ''%'' # a # b # rest)"
| "unquote_item item = CHR ''%'' # item"

definition unquote :: "string \<Rightarrow> string" where
  "unquote s =
     (case split_on CHR ''%'' s of
        [] \<Rightarrow> []
      | b # bs \<Rightarrow> b @ concat (map unquote_item bs))"

definition plus_to_space :: "string \<Rightarrow> string" where
  "plus_to_space s = map (\<lambda>c. if c = CHR ''+'' then CHR '' '' else c) s"

text \<open>
  \<^verbatim>\<open>parse_qsl\<close> with its defaults: fields are separated by \<^verbatim>\<open>&\<close>; an empty field, a
  field without \<^verbatim>\<open>=\<close> and a field with an empty value are dropped; in name and value
  \<^verbatim>\<open>+\<close> becomes a space and the result is unquoted.
\<close>

definition parse_field :: "string \<Rightarrow> (string \<times> string) list" where
  "parse_field name_value =
     (if name_value = [] then []
      else (case split_first CHR ''='' name_value of
              None \<Rightarrow> []
            | Some (n, v) \<Rightarrow>
                if v = [] then []
                else [(unquote (plus_to_space n), unquote (plus_to_space v))]))"

definition parse_qsl :: "string \<Rightarrow> (string \<times> string) list" where
  "parse_qsl qs = concat (map parse_field (split_on CHR ''&'' qs))"

text \<open>\<^verbatim>\<open>parse_qs\<close>: each name with the list of its values, in order of appearance.\<close>

definition parse_qs :: "string \<Rightarrow> string \<Rightarrow> string list option" where
  "parse_qs qs k =
     (case map snd (filter (\<lambda>nv. fst nv = k) (parse_qsl qs)) of
        [] \<Rightarrow> None
      | v # vs \<Rightarrow> Some (v # vs))"

section \<open>URIReferenceDecoder\<close>

text \<open>The dict \<^verbatim>\<open>_parse_curefit_url\<close> returns: each of its five keys (\<^verbatim>\<open>media_url\<close>,
  \<^verbatim>\<open>media_type\<close>, \<^verbatim>\<open>session_title\<close>, \<^verbatim>\<open>pack_id\<close>, \<^verbatim>\<open>content_id\<close>) is present or not.\<close>

record info =
  info_media_url :: "string option"
  info_media_type :: "string option"
  info_session_title :: "string option"
  info_pack_id :: "string option"
  info_content_id :: "string option"

definition empty_info :: info where
  "empty_info = \<lparr>info_media_url = None, info_media_type = None, info_session_title = None,
                  info_pack_id = None, info_content_id = None\<rparr>"

text \<open>The part after the first \<^verbatim>\<open>?\<close>, or the empty string when there is none.\<close>

definition query_of :: "string \<Rightarrow> string" where
  "query_of cure_url =
     (case split_first CHR ''?'' cure_url of
        None \<Rightarrow> []
      | Some (_, query) \<Rightarrow> query)"

definition first_value :: "string list option \<Rightarrow> string option" where
  "first_value vs = (case vs of Some (v # _) \<Rightarrow> Some v | _ \<Rightarrow> None)"

definition parse_query :: "string \<Rightarrow> info" where
  "parse_query query =
     (let params = parse_qs query;
          i1 = (if params ''absoluteAudioUrl'' \<noteq> None
                then empty_info\<lparr>info_media_url := map_option unquote (first_value (params ''absoluteAudioUrl'')),
                                info_media_type := Some ''audio''\<rparr>
                else if params ''absoluteVideoUrl'' \<noteq> None
                then empty_info\<lparr>info_media_url := map_option unquote (first_value (params ''absoluteVideoUrl'')),
                                info_media_type := Some ''video''\<rparr>
                else empty_info);
          i2 = (if params ''title'' \<noteq> None
                then i1\<lparr>info_session_title := first_value (params ''title'')\<rparr> else i1);
          i3 = (if params ''packId'' \<noteq> None
                then i2\<lparr>info_pack_id := first_value (params ''packId'')\<rparr> else i2)
      in (if params ''contentId'' \<noteq> None
          then i3\<lparr>info_content_id := first_value (params ''contentId'')\<rparr> else i3))"

fun parse_curefit_url :: "json \<Rightarrow> info" where
  "parse_curefit_url (JStr cure_url) =
     (if startswith cure_url ''curefit://'' then parse_query (query_of cure_url)
      else empty_info)"
| "parse_curefit_url _ = empty_info"

section \<open>The surroundings of the crawler\<close>

text \<open>
  Results may be exceptions: \<open>Inl\<close> is a raised exception, \<open>Inr\<close> a returned value, and
  \<open>sbind\<close> runs the next statement only when the previous one returned.
\<close>

definition sbind :: "error + 'a \<Rightarrow> ('a \<Rightarrow> error + 'b) \<Rightarrow> error + 'b" where
  "sbind m f = (case m of Inl e \<Rightarrow> Inl e | Inr x \<Rightarrow> f x)"

text \<open>
  The library calls the extraction code makes beyond the query-string functions are
  parameters of the model:
  \<^item> \<open>url_ext url\<close> is \<^verbatim>\<open>os.path.splitext(urlparse(url).path)[1]\<close> (\<^verbatim>\<open>urlparse\<close> can raise);
  \<^item> \<open>urljoin base path\<close> is \<^verbatim>\<open>urljoin(base, path)\<close>;
  \<^item> \<open>http_get url\<close> is \<^verbatim>\<open>self.session.get(url, ...)\<close> followed by
    \<^verbatim>\<open>resp.raise_for_status()\<close>: the text of the response, or the exception;
  \<^item> \<open>script_strings html\<close> is the \<^verbatim>\<open>string\<close> attribute of every \<^verbatim>\<open>script\<close> element
    BeautifulSoup finds in \<open>html\<close>, in document order (\<open>None\<close> as in Python);
  \<^item> \<open>json_loads text\<close> is \<^verbatim>\<open>json.loads(text)\<close> on a text that starts with an opening
    brace: the pairs of the decoded dict, or the exception.

  The interpreter's recursion limit is a parameter too. Only \<^verbatim>\<open>_collect_media_recursive\<close>
  calls itself; every other function of the crawler runs at a small fixed depth.
  \<^item> \<open>walker_frames\<close> is the number of frames the interpreter still grants where the
    crawler calls \<^verbatim>\<open>_collect_media_recursive\<close> (the recursion limit less the depth of the
    caller);
  \<^item> \<open>path_frames\<close> is the number of frames \<^verbatim>\<open>_build_local_path\<close> needs, itself and the
    library functions below it.
\<close>

record env =
  url_ext :: "string \<Rightarrow> error + string"
  urljoin :: "string \<Rightarrow> string \<Rightarrow> error + string"
  http_get :: "string \<Rightarrow> error + string"
  script_strings :: "string \<Rightarrow> string option list"
  json_loads :: "string \<Rightarrow> error + (string \<times> json) list"
  walker_frames :: nat
  path_frames :: nat

section \<open>Local paths\<close>

text \<open>Characters Python counts as whitespace, among the ASCII ones.\<close>

definition is_space :: "char \<Rightarrow> bool" where
  "is_space c = (let n = (of_char c :: nat) in (9 \<le> n \<and> n \<le> 13) \<or> (28 \<le> n \<and> n \<le> 32))"

text \<open>\<^verbatim>\<open>s.strip()\<close> and \<^verbatim>\<open>s.strip(chars)\<close>.\<close>

definition strip_set :: "(char \<Rightarrow> bool) \<Rightarrow> string \<Rightarrow> string" where
  "strip_set P s = rev (dropWhile P (rev (dropWhile P s)))"

text \<open>\<^verbatim>\<open>re.sub(P+, "_", s)\<close> for a character class \<open>P\<close>: every maximal run of
  characters of the class becomes one underscore (written where the run ends).\<close>

fun collapse_runs :: "(char \<Rightarrow> bool) \<Rightarrow> string \<Rightarrow> string" where
  "collapse_runs P [] = []"
| "collapse_runs P [x] = (if P x then ''_'' else [x])"
| "collapse_runs P (x # y # ys) =
     (if P x then (if P y then collapse_runs P (y # ys)
                   else CHR ''_'' # collapse_runs P (y # ys))
      else x # collapse_runs P (y # ys))"

definition illegal_fs_char :: "char \<Rightarrow> bool" where
  "illegal_fs_char c = (c \<in> set ''<>:/|?*'' \<or> c = CHR 0x5C)"

text \<open>
  \<^verbatim>\<open>sanitize\<close> with its default \<^verbatim>\<open>max_len\<close> of 80. The zero-width joiner it removes is
  not an ASCII character. On anything but a string \<^verbatim>\<open>text.strip()\<close> raises.
\<close>

definition sanitize_str :: "string \<Rightarrow> string" where
  "sanitize_str text =
     (let t1 = strip_set is_space text;
          t2 = map (\<lambda>c. if illegal_fs_char c then CHR ''_'' else c) t1;
          t3 = collapse_runs is_space t2;
          t4 = collapse_runs (\<lambda>c. c = CHR ''_'') t3;
          t5 = take 80 (strip_set (\<lambda>c. c = CHR ''.'' \<or> c = CHR ''_'') t4)
      in if t5 = [] then ''untitled'' else t5)"

fun sanitize :: "json \<Rightarrow> error + string" where
  "sanitize (JStr text) = Inr (sanitize_str text)"
| "sanitize _ = Inl AttributeError"

text \<open>The constructor's default \<^verbatim>\<open>out_root\<close>, the one \<^verbatim>\<open>main\<close> uses.\<close>

definition out_root :: string where
  "out_root = ''media''"

text \<open>
  \<^verbatim>\<open>_build_local_path\<close>: the extension of the URL's path, or one guessed from the end of
  the URL; the file name from the session title (\<^verbatim>\<open>"session"\<close> for a false one), under
  the directories of section and pack. The section name is a string (the crawler makes it
  with \<^verbatim>\<open>sanitize\<close>); pack title and session title are whatever the page holds. The steps raise in the order the code runs them.
\<close>

definition build_local_path ::
  "env \<Rightarrow> string \<Rightarrow> json \<Rightarrow> json \<Rightarrow> string \<Rightarrow> error + string" where
  "build_local_path E sec pack session_title url =
     sbind (url_ext E url) (\<lambda>e.
     let ext = (if e \<noteq> [] then e else if endswith url ''audio'' then ''.mp3'' else ''.mp4'') in
     sbind (sanitize (py_or session_title (JStr ''session''))) (\<lambda>t.
     let fname = t @ ext in
     sbind (sanitize pack) (\<lambda>p.
     Inr (out_root @ ''/'' @ sanitize_str sec @ ''/'' @ p @ ''/'' @ fname))))"

section \<open>Media references\<close>

text \<open>The dict appended to \<^verbatim>\<open>media_items\<close> for every reference found.\<close>

record media =
  section_name :: string
  pack :: json
  pack_description :: json
  session_title :: json
  media_type :: string
  cdn_url :: string
  local_path :: string

text \<open>\<^verbatim>\<open>"audio" if media_url.endswith(".mp3") else "video"\<close>.\<close>

definition type_of_url :: "string \<Rightarrow> string" where
  "type_of_url media_url = (if endswith media_url ''.mp3'' then ''audio'' else ''video'')"

text \<open>Computing the local path and building the dict, as every call site does.\<close>

definition make_media ::
  "env \<Rightarrow> string \<Rightarrow> json \<Rightarrow> json \<Rightarrow> json \<Rightarrow> string \<Rightarrow> string \<Rightarrow> error + media" where
  "make_media E sec pack_title pack_desc title mtype media_url =
     sbind (build_local_path E sec pack_title title media_url) (\<lambda>lp.
     Inr \<lparr>section_name = sec, pack = pack_title, pack_description = pack_desc,
          session_title = title, media_type = mtype, cdn_url = media_url,
          local_path = lp\<rparr>)"

section \<open>TreeWalker\<close>

text \<open>The first of the keys \<^verbatim>\<open>downloadUrl\<close>, \<^verbatim>\<open>absoluteUrl\<close>, \<^verbatim>\<open>URL\<close> that the node has
  with a string value, and that value.\<close>

definition is_str_at :: "(string \<times> json) list \<Rightarrow> string \<Rightarrow> bool" where
  "is_str_at node k = (case map_of node k of Some (JStr _) \<Rightarrow> True | _ \<Rightarrow> False)"

definition url_key :: "(string \<times> json) list \<Rightarrow> string option" where
  "url_key node = find (is_str_at node) [''downloadUrl'', ''absoluteUrl'', ''URL'']"

definition str_at :: "(string \<times> json) list \<Rightarrow> string \<Rightarrow> string" where
  "str_at node k = (case map_of node k of Some (JStr s) \<Rightarrow> s | _ \<Rightarrow> [])"

text \<open>
  The reference a mapping node emits for itself, if it carries a direct URL. With \<open>f\<close>
  frames left below the walker's own, the call of \<^verbatim>\<open>_build_local_path\<close> exceeds the
  recursion limit when it needs more than \<open>f\<close>.
\<close>

definition node_media ::
  "env \<Rightarrow> nat \<Rightarrow> string \<Rightarrow> json \<Rightarrow> json \<Rightarrow> (string \<times> json) list \<Rightarrow> json \<Rightarrow> error + media list" where
  "node_media E f sec pack_title pack_desc node inherited_title =
     (case url_key node of
        None \<Rightarrow> Inr []
      | Some k \<Rightarrow>
          (let media_url = str_at node k;
               title = py_or (get node ''title'')
                         (py_or (get node ''subTitle'')
                            (py_or inherited_title (JStr ''Session'')))
           in if f < path_frames E then Inl RecursionError
              else sbind (make_media E sec pack_title pack_desc title (type_of_url media_url)
                            media_url)
                     (\<lambda>m. Inr [m])))"

text \<open>
  \<^verbatim>\<open>_collect_media_recursive\<close>, with the two loops over the values of a dict and over the
  items of a list as functions of their own. The second argument is the number of
  frames the interpreter still grants: every call of the walker takes one, on a scalar
  as on a container, and a call with none left raises \<^verbatim>\<open>RecursionError\<close>. The code has
  no depth argument and no check of its own.
\<close>

fun collect_media_recursive ::
      "env \<Rightarrow> nat \<Rightarrow> string \<Rightarrow> json \<Rightarrow> json \<Rightarrow> json \<Rightarrow> json \<Rightarrow> error + media list"
  and collect_values ::
      "env \<Rightarrow> nat \<Rightarrow> string \<Rightarrow> json \<Rightarrow> json \<Rightarrow> (string \<times> json) list \<Rightarrow> json \<Rightarrow> error + media list"
  and collect_items ::
      "env \<Rightarrow> nat \<Rightarrow> string \<Rightarrow> json \<Rightarrow> json \<Rightarrow> json list \<Rightarrow> json \<Rightarrow> error + media list"
where
  "collect_media_recursive E 0 sec pt pd node inherited_title = Inl RecursionError"
| "collect_media_recursive E (Suc f) sec pt pd (JDict node) inherited_title =
     sbind (node_media E f sec pt pd node inherited_title) (\<lambda>own.
     sbind (collect_values E f sec pt pd node (py_or inherited_title (get node ''title''))) (\<lambda>below.
     Inr (own @ below)))"
| "collect_media_recursive E (Suc f) sec pt pd (JList xs) inherited_title =
     collect_items E f sec pt pd xs inherited_title"
| "collect_media_recursive E (Suc f) sec pt pd JNull inherited_title = Inr []"
| "collect_media_recursive E (Suc f) sec pt pd (JBool b) inherited_title = Inr []"
| "collect_media_recursive E (Suc f) sec pt pd (JNum n) inherited_title = Inr []"
| "collect_media_recursive E (Suc f) sec pt pd (JStr s) inherited_title = Inr []"
| "collect_values E f sec pt pd [] t = Inr []"
| "collect_values E f sec pt pd ((k, v) # kvs) t =
     sbind (collect_media_recursive E f sec pt pd v t) (\<lambda>a.
     sbind (collect_values E f sec pt pd kvs t) (\<lambda>b.
     Inr (a @ b)))"
| "collect_items E f sec pt pd [] t = Inr []"
| "collect_items E f sec pt pd (x # xs) t =
     sbind (collect_media_recursive E f sec pt pd x t) (\<lambda>a.
     sbind (collect_items E f sec pt pd xs t) (\<lambda>b.
     Inr (a @ b)))"


section \<open>StateExtractor\<close>

text \<open>\<^verbatim>\<open>p in s\<close> for strings.\<close>

fun contains :: "string \<Rightarrow> string \<Rightarrow> bool" where
  "contains [] p = (p = [])"
| "contains (c # cs) p = (startswith (c # cs) p \<or> contains cs p)"

text \<open>
  The regular expression \<^verbatim>\<open>window\.__PRELOADED_STATE__\s*=\s*{\<close>: \<open>match_marker\<close> matches
  it at the start of a text and \<open>search_marker\<close> at the leftmost position where it
  matches, as \<^verbatim>\<open>re.search\<close> does. Both return the text from the matched opening brace on
  (\<^verbatim>\<open>stext[idx:]\<close>).
\<close>

definition match_marker :: "string \<Rightarrow> string option" where
  "match_marker s =
     (if startswith s ''window.__PRELOADED_STATE__''
      then (case dropWhile is_space (drop (length ''window.__PRELOADED_STATE__'') s) of
              [] \<Rightarrow> None
            | c # r2 \<Rightarrow>
                if c = CHR ''='' then
                  (case dropWhile is_space r2 of
                     [] \<Rightarrow> None
                   | b # r3 \<Rightarrow> if b = CHR ''{'' then Some (b # r3) else None)
                else None)
      else None)"

fun search_marker :: "string \<Rightarrow> string option" where
  "search_marker [] = None"
| "search_marker (c # cs) =
     (case match_marker (c # cs) of
        Some r \<Rightarrow> Some r
      | None \<Rightarrow> search_marker cs)"

text \<open>
  The brace-counting loop: \<open>brace_span n s\<close> runs it over \<open>s\<close> with \<open>brace_count = n\<close> and
  returns the characters up to and including the closing brace that brings the count to
  zero (\<^verbatim>\<open>stext[pos:end_idx]\<close>), or \<open>None\<close> when the text ends first.
\<close>

fun brace_span :: "int \<Rightarrow> string \<Rightarrow> string option" where
  "brace_span n [] = None"
| "brace_span n (c # cs) =
     (if c = CHR ''{'' then map_option ((#) c) (brace_span (n + 1) cs)
      else if c = CHR ''}'' then
        (if n - 1 = 0 then Some [c] else map_option ((#) c) (brace_span (n - 1) cs))
      else map_option ((#) c) (brace_span n cs))"

text \<open>\<^verbatim>\<open>re.sub(r"undefined", "null", s)\<close>.\<close>

fun sub_undefined :: "string \<Rightarrow> string" where
  "sub_undefined [] = []"
| "sub_undefined (c # cs) =
     (if startswith (c # cs) ''undefined'' then ''null'' @ sub_undefined (drop 8 cs)
      else c # sub_undefined cs)"

text \<open>The text one script block hands to \<^verbatim>\<open>json.loads\<close>, or \<open>None\<close> when the block is
  skipped before that.\<close>

definition json_candidate :: "string option \<Rightarrow> string option" where
  "json_candidate script =
     (case script of
        None \<Rightarrow> None
      | Some stext \<Rightarrow>
          if stext = [] \<or> \<not> contains stext ''__PRELOADED_STATE__'' then None
          else (case search_marker stext of
                  None \<Rightarrow> None
                | Some from_brace \<Rightarrow> map_option sub_undefined (brace_span 0 from_brace)))"

text \<open>The loop over the script blocks: a \<^verbatim>\<open>JSONDecodeError\<close> moves on to the next block,
  any other exception of the decoder leaves the function.\<close>

fun first_state :: "env \<Rightarrow> string option list \<Rightarrow> error + (string \<times> json) list option" where
  "first_state E [] = Inr None"
| "first_state E (script # rest) =
     (case json_candidate script of
        None \<Rightarrow> first_state E rest
      | Some json_str \<Rightarrow>
          (case json_loads E json_str of
             Inr state \<Rightarrow> Inr (Some state)
           | Inl e \<Rightarrow> if e = JSONDecodeError then first_state E rest else Inl e))"

definition extract_preloaded_state :: "env \<Rightarrow> string \<Rightarrow> error + (string \<times> json) list option" where
  "extract_preloaded_state E html = first_state E (script_strings E html)"

section \<open>Pack-detail extraction\<close>

text \<open>\<^verbatim>\<open>for x in v\<close>: the items of a list, the keys of a dict, the characters of a string;
  nothing else can be iterated.\<close>

fun py_iter :: "json \<Rightarrow> error + json list" where
  "py_iter (JList xs) = Inr xs"
| "py_iter (JDict d) = Inr (map (\<lambda>kv. JStr (fst kv)) d)"
| "py_iter (JStr s) = Inr (map (\<lambda>c. JStr [c]) s)"
| "py_iter _ = Inl TypeError"

text \<open>
  The one piece of state the extraction reads and writes is the flag
  \<^verbatim>\<open>_warned_login_required\<close>. A statement that may set it takes the flag and returns its
  result with the new flag; \<open>ebind\<close> runs the next statement when the previous one
  returned.
\<close>

definition ebind ::
  "(error + 'a) \<times> bool \<Rightarrow> ('a \<Rightarrow> bool \<Rightarrow> (error + 'b) \<times> bool) \<Rightarrow> (error + 'b) \<times> bool" where
  "ebind m f = (case m of (Inl e, w) \<Rightarrow> (Inl e, w) | (Inr x, w) \<Rightarrow> f x w)"

text \<open>\<^verbatim>\<open>isinstance(v, dict) and v.get("actionType") == "SHOW_LOGIN_MODAL"\<close>.\<close>

fun is_login_modal :: "json \<Rightarrow> bool" where
  "is_login_modal (JDict d) = (get d ''actionType'' = JStr ''SHOW_LOGIN_MODAL'')"
| "is_login_modal _ = False"

text \<open>\<^verbatim>\<open>d.get("downloadUrl") or d.get("absoluteUrl") or d.get("URL")\<close>.\<close>

definition direct_url :: "(string \<times> json) list \<Rightarrow> json" where
  "direct_url d = py_or (get d ''downloadUrl'') (py_or (get d ''absoluteUrl'') (get d ''URL''))"

text \<open>The reference decoded from an action string, with the title to use when the
  string carries none.\<close>

definition info_media ::
  "env \<Rightarrow> string \<Rightarrow> json \<Rightarrow> json \<Rightarrow> info \<Rightarrow> string \<Rightarrow> json \<Rightarrow> error + media" where
  "info_media E sec pt pd nfo mu default_title =
     make_media E sec pt pd
       (case info_session_title nfo of Some t \<Rightarrow> JStr t | None \<Rightarrow> default_title)
       (case info_media_type nfo of Some t \<Rightarrow> t | None \<Rightarrow> ''audio'')
       mu"

text \<open>The body of the inner loop of \<^verbatim>\<open>_extract_from_pack_detail\<close>, for one widget item.\<close>

fun detail_item ::
  "env \<Rightarrow> string \<Rightarrow> json \<Rightarrow> json \<Rightarrow> json \<Rightarrow> bool \<Rightarrow> (error + media list) \<times> bool" where
  "detail_item E sec pt pd (JDict itm) w =
     (case map_of itm ''playAction'' of
        Some (JStr play) \<Rightarrow>
          (let nfo = parse_curefit_url (JStr play) in
           case info_media_url nfo of
             None \<Rightarrow> (Inr [], w)
           | Some mu \<Rightarrow>
               (sbind (info_media E sec pt pd nfo mu (get_or itm ''title'' (JStr ''Session'')))
                  (\<lambda>m. Inr [m]), w))
      | _ \<Rightarrow>
          if is_login_modal (get itm ''playAction'') \<and> \<not> w then (Inr [], True)
          else (case direct_url itm of
                  JStr url_field \<Rightarrow>
                    (sbind (make_media E sec pt pd (get_or itm ''title'' (JStr ''Session''))
                              (type_of_url url_field) url_field)
                       (\<lambda>m. Inr [m]), w)
                | _ \<Rightarrow>
                    (case get itm ''content'' of
                       JList xs \<Rightarrow>
                         (collect_media_recursive E (walker_frames E) sec pt pd (JList xs) (get itm ''title''), w)
                     | JDict d \<Rightarrow>
                         (collect_media_recursive E (walker_frames E) sec pt pd (JDict d) (get itm ''title''), w)
                     | _ \<Rightarrow> (Inr [], w))))"
| "detail_item E sec pt pd _ w = (Inr [], w)"

fun detail_items ::
  "env \<Rightarrow> string \<Rightarrow> json \<Rightarrow> json \<Rightarrow> json list \<Rightarrow> bool \<Rightarrow> (error + media list) \<times> bool" where
  "detail_items E sec pt pd [] w = (Inr [], w)"
| "detail_items E sec pt pd (itm # rest) w =
     ebind (detail_item E sec pt pd itm w) (\<lambda>ms w1.
     ebind (detail_items E sec pt pd rest w1) (\<lambda>ms' w2.
     (Inr (ms @ ms'), w2)))"

text \<open>The body of the outer loop, for one widget.\<close>

fun detail_widget ::
  "env \<Rightarrow> string \<Rightarrow> json \<Rightarrow> json \<Rightarrow> json \<Rightarrow> bool \<Rightarrow> (error + media list) \<times> bool" where
  "detail_widget E sec pt pd (JDict widget) w =
     ebind (py_iter (get_or widget ''items'' (JList [])), w) (detail_items E sec pt pd)"
| "detail_widget E sec pt pd _ w = (Inr [], w)"

fun detail_widgets ::
  "env \<Rightarrow> string \<Rightarrow> json \<Rightarrow> json \<Rightarrow> json list \<Rightarrow> bool \<Rightarrow> (error + media list) \<times> bool" where
  "detail_widgets E sec pt pd [] w = (Inr [], w)"
| "detail_widgets E sec pt pd (widget # rest) w =
     ebind (detail_widget E sec pt pd widget w) (\<lambda>ms w1.
     ebind (detail_widgets E sec pt pd rest w1) (\<lambda>ms' w2.
     (Inr (ms @ ms'), w2)))"

text \<open>The first dict among the values of \<^verbatim>\<open>state["cultDIYPack"]\<close>, when that is a dict.\<close>

fun first_dict :: "(string \<times> json) list \<Rightarrow> (string \<times> json) list option" where
  "first_dict [] = None"
| "first_dict ((k, JDict d) # rest) = Some d"
| "first_dict (kv # rest) = first_dict rest"

definition find_pack_dict :: "(string \<times> json) list \<Rightarrow> (string \<times> json) list option" where
  "find_pack_dict state =
     (case map_of state ''cultDIYPack'' of
        Some (JDict packs) \<Rightarrow> first_dict packs
      | _ \<Rightarrow> None)"

text \<open>What \<^verbatim>\<open>_extract_from_pack_detail\<close> does inside its \<^verbatim>\<open>try\<close>.\<close>

definition pack_media ::
  "env \<Rightarrow> string \<Rightarrow> json \<Rightarrow> json \<Rightarrow> (string \<times> json) list \<Rightarrow> bool \<Rightarrow> (error + media list) \<times> bool" where
  "pack_media E sec pt pd pack_dict w =
     ebind (py_iter (get_or pack_dict ''productWidgets'' (JList [])), w) (\<lambda>widgets w0.
     ebind (detail_widgets E sec pt pd widgets w0) (\<lambda>ms w1.
     ebind (collect_media_recursive E (walker_frames E) sec pt pd (get pack_dict ''content'') pt, w1) (\<lambda>ms' w2.
     (Inr (ms @ ms'), w2))))"

definition detail_body ::
  "env \<Rightarrow> string \<Rightarrow> string \<Rightarrow> json \<Rightarrow> json \<Rightarrow> bool \<Rightarrow> (error + media list) \<times> bool" where
  "detail_body E pack_url sec pt pd w =
     ebind (http_get E pack_url, w) (\<lambda>text w0.
     ebind (extract_preloaded_state E text, w0) (\<lambda>state w1.
       case state of
         None \<Rightarrow> (Inr [], w1)
       | Some st \<Rightarrow>
           if st = [] then (Inr [], w1)
           else (case find_pack_dict st of
                   None \<Rightarrow> (Inr [], w1)
                 | Some pack_dict \<Rightarrow>
                     if pack_dict = [] then (Inr [], w1)
                     else pack_media E sec pt pd pack_dict w1)))"

text \<open>\<^verbatim>\<open>_extract_from_pack_detail\<close>: any exception of the body becomes the empty list. A
  flag the body has set stays set.\<close>

definition extract_from_pack_detail ::
  "env \<Rightarrow> string \<Rightarrow> string \<Rightarrow> json \<Rightarrow> json \<Rightarrow> bool \<Rightarrow> media list \<times> bool" where
  "extract_from_pack_detail E pack_url sec pt pd w =
     (case detail_body E pack_url sec pt pd w of
        (Inl e, w') \<Rightarrow> ([], w')
      | (Inr ms, w') \<Rightarrow> (ms, w'))"

section \<open>ItemResolver\<close>

text \<open>\<^verbatim>\<open>str(n)\<close> for a natural number, as the f-string \<^verbatim>\<open>f"Session {idx+1}"\<close> needs it.\<close>

fun str_of_nat :: "nat \<Rightarrow> string" where
  "str_of_nat n =
     (if n < 10 then [char_of (48 + n)]
      else str_of_nat (n div 10) @ [char_of (48 + n mod 10)])"

declare str_of_nat.simps [simp del]

text \<open>
  The entries of \<^verbatim>\<open>sources\<close> are pairs of an action value and a default title. The first
  ones come from the item's own \<^verbatim>\<open>packIntroAction\<close> and \<^verbatim>\<open>playAction\<close>.
\<close>

definition item_sources :: "(string \<times> json) list \<Rightarrow> (json \<times> json) list" where
  "item_sources item =
     (if has_key item ''packIntroAction'' then [(get item ''packIntroAction'', JStr ''Intro'')] else [])
     @ (if has_key item ''playAction'' then [(get item ''playAction'', JStr ''Main'')] else [])"

text \<open>
  One round of the loop over a list-valued \<^verbatim>\<open>content\<close>: the references it appends to
  \<^verbatim>\<open>media_items\<close> and the entries it appends to \<^verbatim>\<open>sources\<close>. A true direct URL that is
  not a string raises at \<^verbatim>\<open>media_url.endswith\<close>.
\<close>

fun scan_element ::
  "env \<Rightarrow> string \<Rightarrow> json \<Rightarrow> json \<Rightarrow> nat \<Rightarrow> json \<Rightarrow> error + (media list \<times> (json \<times> json) list)" where
  "scan_element E sec pt pd idx (JDict content) =
     (let dflt = JStr (''Session '' @ str_of_nat (idx + 1)) in
      if has_key content ''playAction''
      then Inr ([], [(get content ''playAction'', get_or content ''title'' dflt)])
      else if truthy (direct_url content)
      then (case direct_url content of
              JStr media_url \<Rightarrow>
                sbind (make_media E sec pt pd (get_or content ''title'' dflt)
                         (type_of_url media_url) media_url)
                  (\<lambda>m. Inr ([m], []))
            | _ \<Rightarrow> Inl AttributeError)
      else Inr ([], []))"
| "scan_element E sec pt pd idx _ = Inr ([], [])"

fun scan_list ::
  "env \<Rightarrow> string \<Rightarrow> json \<Rightarrow> json \<Rightarrow> nat \<Rightarrow> json list \<Rightarrow> error + (media list \<times> (json \<times> json) list)" where
  "scan_list E sec pt pd idx [] = Inr ([], [])"
| "scan_list E sec pt pd idx (content # rest) =
     sbind (scan_element E sec pt pd idx content) (\<lambda>r.
     sbind (scan_list E sec pt pd (idx + 1) rest) (\<lambda>r'.
     Inr (fst r @ fst r', snd r @ snd r')))"

text \<open>Steps 2 and 3: the \<^verbatim>\<open>content\<close> field as a list, as a single dict, or as neither.\<close>

fun scan_content ::
  "env \<Rightarrow> string \<Rightarrow> json \<Rightarrow> json \<Rightarrow> json \<Rightarrow> error + (media list \<times> (json \<times> json) list)" where
  "scan_content E sec pt pd (JList xs) = scan_list E sec pt pd 0 xs"
| "scan_content E sec pt pd (JDict content_field) =
     (case direct_url content_field of
        JStr media_url \<Rightarrow>
          sbind (make_media E sec pt pd (get_or content_field ''title'' (JStr ''Session''))
                   (type_of_url media_url) media_url)
            (\<lambda>m. Inr ([m], []))
      | _ \<Rightarrow> Inr ([], []))"
| "scan_content E sec pt pd _ = Inr ([], [])"

text \<open>The link to the pack-detail page: the first true one of \<^verbatim>\<open>link\<close>, \<^verbatim>\<open>action\<close>,
  \<^verbatim>\<open>moreAction.url\<close>, \<^verbatim>\<open>deeplink\<close>, \<^verbatim>\<open>slug\<close> (the last one if none is true).\<close>

definition more_action_url :: "(string \<times> json) list \<Rightarrow> json" where
  "more_action_url item =
     (case get item ''moreAction'' of JDict d \<Rightarrow> get d ''url'' | _ \<Rightarrow> JNull)"

definition link_path :: "(string \<times> json) list \<Rightarrow> json" where
  "link_path item =
     py_or (get item ''link'')
       (py_or (get item ''action'')
          (py_or (more_action_url item)
             (py_or (get item ''deeplink'') (get item ''slug''))))"

definition BASE_URL :: string where
  "BASE_URL = ''https://www.cult.fit''"

text \<open>The detail-page step: only a link that is a string starting with a slash is
  followed. \<^verbatim>\<open>urljoin\<close> is called outside the \<^verbatim>\<open>try\<close> of the fetch.\<close>

definition detail_step ::
  "env \<Rightarrow> (string \<times> json) list \<Rightarrow> string \<Rightarrow> json \<Rightarrow> json \<Rightarrow> bool \<Rightarrow> (error + media list) \<times> bool" where
  "detail_step E item sec pt pd w =
     (case link_path item of
        JStr lp \<Rightarrow>
          if startswith lp ''/'' then
            (case urljoin E BASE_URL lp of
               Inl e \<Rightarrow> (Inl e, w)
             | Inr pack_url \<Rightarrow>
                 (case extract_from_pack_detail E pack_url sec pt pd w of
                    (extra_media, w') \<Rightarrow> (Inr extra_media, w')))
          else (Inr [], w)
      | _ \<Rightarrow> (Inr [], w))"

text \<open>The loop over \<^verbatim>\<open>sources\<close>, which decodes the collected action values.\<close>

fun resolve_sources ::
  "env \<Rightarrow> string \<Rightarrow> json \<Rightarrow> json \<Rightarrow> (json \<times> json) list \<Rightarrow> bool \<Rightarrow> (error + media list) \<times> bool" where
  "resolve_sources E sec pt pd [] w = (Inr [], w)"
| "resolve_sources E sec pt pd ((play_url, default_title) # rest) w =
     (let nfo = parse_curefit_url play_url in
      case info_media_url nfo of
        None \<Rightarrow>
          resolve_sources E sec pt pd rest (if is_login_modal play_url \<and> \<not> w then True else w)
      | Some mu \<Rightarrow>
          ebind (info_media E sec pt pd nfo mu default_title, w) (\<lambda>m w1.
          ebind (resolve_sources E sec pt pd rest w1) (\<lambda>ms w2.
          (Inr (m # ms), w2))))"

text \<open>
  The list \<^verbatim>\<open>media_items\<close> as it stands before the de-duplication: in the order in which
  the code appends to it.
\<close>

definition discovered ::
  "env \<Rightarrow> (string \<times> json) list \<Rightarrow> string \<Rightarrow> json \<Rightarrow> json \<Rightarrow> bool \<Rightarrow> (error + media list) \<times> bool" where
  "discovered E item sec pt pd w =
     ebind (scan_content E sec pt pd (get item ''content''), w) (\<lambda>scanned w0.
     ebind (collect_media_recursive E (walker_frames E) sec pt pd (get item ''content'') JNull, w0) (\<lambda>walked w1.
     ebind (detail_step E item sec pt pd w1) (\<lambda>extra w2.
     ebind (resolve_sources E sec pt pd (item_sources item @ snd scanned) w2) (\<lambda>decoded w3.
     (Inr (fst scanned @ walked @ extra @ decoded), w3)))))"

section \<open>De-duplication\<close>

text \<open>\<^verbatim>\<open>title.lower()\<close>, which only a string has.\<close>

definition lower_char :: "char \<Rightarrow> char" where
  "lower_char c =
     (let n = (of_char c :: nat) in if 65 \<le> n \<and> n \<le> 90 then char_of (n + 32) else c)"

fun lower :: "json \<Rightarrow> error + string" where
  "lower (JStr s) = Inr (map lower_char s)"
| "lower _ = Inl AttributeError"

text \<open>
  The dict \<^verbatim>\<open>dedup\<close> is a list of pairs in insertion order. Assigning to a key that is
  present replaces its value where it stands.
\<close>

definition assign :: "(string \<times> media) list \<Rightarrow> string \<Rightarrow> media \<Rightarrow> (string \<times> media) list" where
  "assign d url entry =
     (if map_of d url = None then d @ [(url, entry)]
      else map (\<lambda>kv. if fst kv = url then (url, entry) else kv) d)"

definition dedup_entry :: "(string \<times> media) list \<Rightarrow> media \<Rightarrow> error + (string \<times> media) list" where
  "dedup_entry d entry =
     (case map_of d (cdn_url entry) of
        None \<Rightarrow> Inr (assign d (cdn_url entry) entry)
      | Some prev \<Rightarrow>
          sbind (lower (session_title prev)) (\<lambda>prev_title.
          sbind (lower (session_title entry)) (\<lambda>new_title.
          Inr (if startswith prev_title ''session'' \<and> \<not> startswith new_title ''session''
               then assign d (cdn_url entry) entry else d))))"

fun dedup_loop :: "(string \<times> media) list \<Rightarrow> media list \<Rightarrow> error + (string \<times> media) list" where
  "dedup_loop d [] = Inr d"
| "dedup_loop d (entry # rest) = sbind (dedup_entry d entry) (\<lambda>d'. dedup_loop d' rest)"

definition dedup :: "media list \<Rightarrow> error + media list" where
  "dedup media_items = sbind (dedup_loop [] media_items) (\<lambda>d. Inr (map snd d))"

text \<open>The table \<^verbatim>\<open>dedup\<close> is well keyed: no key twice, every entry under its own URL.\<close>

definition keyed :: "(string \<times> media) list \<Rightarrow> bool" where
  "keyed d = (distinct (map fst d) \<and> map (\<lambda>kv. cdn_url (snd kv)) d = map fst d)"

text \<open>\<^verbatim>\<open>_extract_media_from_item\<close>.\<close>

definition extract_media_from_item ::
  "env \<Rightarrow> (string \<times> json) list \<Rightarrow> string \<Rightarrow> json \<Rightarrow> json \<Rightarrow> bool \<Rightarrow> (error + media list) \<times> bool" where
  "extract_media_from_item E item sec pt pd w =
     ebind (discovered E item sec pt pd w) (\<lambda>media_items w'. (dedup media_items, w'))"

section \<open>Catalog\<close>

text \<open>
  The crawler's stores: the flat list \<^verbatim>\<open>media_items\<close>, the \<^verbatim>\<open>defaultdict\<close>
  \<^verbatim>\<open>media_by_section\<close> (a function that is the empty list where nothing was stored) and
  the login flag.
\<close>

record crawler =
  media_items :: "media list"
  media_by_section :: "string \<Rightarrow> media list"
  warned_login_required :: bool

definition new_crawler :: crawler where
  "new_crawler = \<lparr>media_items = [], media_by_section = (\<lambda>sec. []),
                    warned_login_required = False\<rparr>"

text \<open>The body of the innermost loop of \<^verbatim>\<open>crawl\<close>, for one pack item. On anything but a
  dict \<^verbatim>\<open>item.get\<close> raises. Nothing around the extraction catches an exception.\<close>

fun crawl_item :: "env \<Rightarrow> string \<Rightarrow> json \<Rightarrow> crawler \<Rightarrow> error + crawler" where
  "crawl_item E sec (JDict item) c =
     (let pack_title = get_or item ''title'' (JStr ''Unknown Pack'');
          pack_desc = get_or item ''description'' (JStr [])
      in case extract_media_from_item E item sec pack_title pack_desc (warned_login_required c) of
           (Inl e, w) \<Rightarrow> Inl e
         | (Inr med_list, w) \<Rightarrow>
             Inr (if med_list \<noteq> []
                  then c\<lparr>media_items := media_items c @ med_list,
                         media_by_section :=
                           (media_by_section c)(sec := media_by_section c sec @ med_list),
                         warned_login_required := w\<rparr>
                  else c\<lparr>warned_login_required := w\<rparr>))"
| "crawl_item E sec _ c = Inl AttributeError"

fun crawl_items :: "env \<Rightarrow> string \<Rightarrow> json list \<Rightarrow> crawler \<Rightarrow> error + crawler" where
  "crawl_items E sec [] c = Inr c"
| "crawl_items E sec (item # rest) c =
     sbind (crawl_item E sec item c) (crawl_items E sec rest)"

text \<open>The body of the loop over the widgets: \<^verbatim>\<open>w.get("items", [])\<close> needs a dict.\<close>

fun crawl_widget :: "env \<Rightarrow> string \<Rightarrow> json \<Rightarrow> crawler \<Rightarrow> error + crawler" where
  "crawl_widget E sec (JDict w) c =
     sbind (py_iter (get_or w ''items'' (JList []))) (\<lambda>items. crawl_items E sec items c)"
| "crawl_widget E sec _ c = Inl AttributeError"

fun crawl_widgets :: "env \<Rightarrow> string \<Rightarrow> json list \<Rightarrow> crawler \<Rightarrow> error + crawler" where
  "crawl_widgets E sec [] c = Inr c"
| "crawl_widgets E sec (w # rest) c =
     sbind (crawl_widget E sec w c) (crawl_widgets E sec rest)"

text \<open>What \<^verbatim>\<open>crawl\<close> does with the state of one section page.\<close>

definition crawl_state :: "env \<Rightarrow> string \<Rightarrow> (string \<times> json) list \<Rightarrow> crawler \<Rightarrow> error + crawler" where
  "crawl_state E sec state c =
     (case map_of state ''cultDIYPackBrowse'' of
        None \<Rightarrow> Inr c
      | Some (JDict browse) \<Rightarrow>
          sbind (py_iter (get_or browse ''widgets'' (JList []))) (\<lambda>widgets.
          crawl_widgets E sec widgets c)
      | Some _ \<Rightarrow> Inl AttributeError)"

text \<open>One round of the loop over the sections, each a name and a URL: a failed request
  skips the section.\<close>

definition crawl_section :: "env \<Rightarrow> string \<times> string \<Rightarrow> crawler \<Rightarrow> error + crawler" where
  "crawl_section E sec c =
     (case http_get E (snd sec) of
        Inl e \<Rightarrow> Inr c
      | Inr text \<Rightarrow>
          sbind (extract_preloaded_state E text) (\<lambda>state.
            case state of
              None \<Rightarrow> Inr c
            | Some st \<Rightarrow> if st = [] then Inr c else crawl_state E (fst sec) st c))"

fun crawl :: "env \<Rightarrow> (string \<times> string) list \<Rightarrow> crawler \<Rightarrow> error + crawler" where
  "crawl E [] c = Inr c"
| "crawl E (sec # rest) c = sbind (crawl_section E sec c) (crawl E rest)"

section \<open>A sample environment\<close>

text \<open>
  \<^verbatim>\<open>os.path.splitext(p)[1]\<close> on a POSIX path: what follows the last dot of the last
  component, dot included, unless only dots precede it there.
\<close>

definition splitext_ext :: "string \<Rightarrow> string" where
  "splitext_ext p =
     (let base = last (split_on CHR ''/'' p);
          r = rev base;
          e = takeWhile (\<lambda>c. c \<noteq> CHR ''.'') r
      in (case dropWhile (\<lambda>c. c \<noteq> CHR ''.'') r of
            [] \<Rightarrow> []
          | d # front \<Rightarrow>
              if filter (\<lambda>c. c \<noteq> CHR ''.'') front \<noteq> [] then CHR ''.'' # rev e else []))"

text \<open>
  An environment without network: every request fails. The frame counts are those of
  the default recursion limit of 1000, with the walker called four frames deep and a
  path builder that goes five frames down. Its \<open>url_ext\<close> takes the
  extension of the URL string, which is the extension of its path when the URL has
  neither parameters, query nor fragment; its \<open>urljoin\<close> appends a path that starts with
  one slash to a base without path.
\<close>

definition offline_env :: env where
  "offline_env =
     \<lparr>url_ext = (\<lambda>u. Inr (splitext_ext u)),
      urljoin = (\<lambda>b p. Inr (b @ p)),
      http_get = (\<lambda>u. Inl RequestError),
      script_strings = (\<lambda>h. []),
      json_loads = (\<lambda>t. Inl JSONDecodeError),
      walker_frames = 996,
      path_frames = 5\<rparr>"

text \<open>
  An environment with one page: the request for \<open>url\<close> answers \<open>html\<close>, whose only script
  block has the string \<open>script\<close>, and the decoder reads \<open>json_text\<close> as \<open>state\<close> and rejects
  every other text.
\<close>

definition page_env :: "string \<Rightarrow> string \<Rightarrow> string \<Rightarrow> string \<Rightarrow> (string \<times> json) list \<Rightarrow> env" where
  "page_env url html script json_text state =
     \<lparr>url_ext = (\<lambda>u. Inr (splitext_ext u)),
      urljoin = (\<lambda>b p. Inr (b @ p)),
      http_get = (\<lambda>u. if u = url then Inr html else Inl RequestError),
      script_strings = (\<lambda>h. if h = html then [Some script] else []),
      json_loads = (\<lambda>t. if t = json_text then Inr state else Inl JSONDecodeError),
      walker_frames = 996,
      path_frames = 5\<rparr>"

text \<open>A section page with two packs that expose the same file.\<close>

definition browse_json :: string where
  \<open>browse_json = ''{"cultDIYPackBrowse": {"widgets": [{"items": [{"title": "Pack A", "content": {"downloadUrl": "https://cdn/a.mp3"}}, {"title": "Pack B", "content": {"downloadUrl": "https://cdn/a.mp3"}}]}]}}''\<close>

definition browse_state :: "(string \<times> json) list" where
  "browse_state =
     [(''cultDIYPackBrowse'', JDict [(''widgets'', JList [JDict [(''items'', JList
        [JDict [(''title'', JStr ''Pack A''),
                (''content'', JDict [(''downloadUrl'', JStr ''https://cdn/a.mp3'')])],
         JDict [(''title'', JStr ''Pack B''),
                (''content'', JDict [(''downloadUrl'', JStr ''https://cdn/a.mp3'')])]])]])])]"

definition browse_env :: env where
  "browse_env =
     page_env ''https://www.cult.fit/live/mindfulness/sleep''
       (''<script>window.__PRELOADED_STATE__ = '' @ browse_json @ ''</script>'')
       (''window.__PRELOADED_STATE__ = '' @ browse_json)
       browse_json browse_state"







text \<open>A pack item with a play action, an intro action and a content list that holds a
  nested play action and a direct URL.\<close>

definition both_actions_item :: "(string \<times> json) list" where
  "both_actions_item =
     [(''playAction'', JStr ''curefit://x?absoluteAudioUrl=https%3A%2F%2Fcdn%2Fmain.mp3''),
      (''packIntroAction'',
         JStr ''curefit://x?absoluteVideoUrl=https%3A%2F%2Fcdn%2Fintro.mp4&title=Welcome''),
      (''content'', JList
         [JDict [(''playAction'', JStr ''curefit://x?absoluteAudioUrl=https%3A%2F%2Fcdn%2Fd1.mp3'')],
          JDict [(''downloadUrl'', JStr ''https://cdn/d2.mp3''), (''title'', JStr ''Day 2'')]])]"

text \<open>A page whose state has a closing brace inside a string.\<close>

definition brace_json :: string where
  \<open>brace_json = ''{"a": "}"}''\<close>

definition brace_env :: env where
  "brace_env =
     page_env ''https://www.cult.fit/live/mindfulness/sleep''
       (''<script>window.__PRELOADED_STATE__ = '' @ brace_json @ ''</script>'')
       (''window.__PRELOADED_STATE__ = '' @ brace_json)
       brace_json [(''a'', JStr ''}'')]"


section \<open>Basic facts\<close>

lemma sbind_simps [simp]: "sbind (Inl e) f = Inl e" "sbind (Inr x) f = f x"
  by (simp_all add: sbind_def)

lemma sbind_return [simp]: "sbind m Inr = m"
  by (cases m) simp_all

lemma ebind_simps [simp]: "ebind (Inl e, w) f = (Inl e, w)" "ebind (Inr x, w) f = f x w"
  by (simp_all add: ebind_def)

section \<open>Properties of the tree walker\<close>









lemma sanitize_Outer: "sanitize_str ''Outer'' = ''Outer''"
  by code_simp

lemma sanitize_Inner: "sanitize_str ''Inner'' = ''Inner''"
  by code_simp

text \<open>
  Claim C3, as the code has it. What a mapping node passes down as inherited title is the
  title it inherited itself when that is true, and its own \<^verbatim>\<open>title\<close> only otherwise
  (\<^verbatim>\<open>inherited_title or node.get("title")\<close>). So below a titled node that sits under
  another titled node, a URL node without title of its own is emitted with the outer
  title, not the inner one (given the frames the walk of that tree takes).
\<close>

theorem title_inheritance_keeps_outer:
  "collect_media_recursive E (Suc f) sec pt pd (JDict node) inh =
     sbind (node_media E f sec pt pd node inh) (\<lambda>own.
     sbind (collect_values E f sec pt pd node (if truthy inh then inh else get node ''title''))
       (\<lambda>below. Inr (own @ below)))
   \<and> (outer \<noteq> [] \<and> 5 \<le> g \<and> 4 + path_frames E \<le> g \<longrightarrow>
      collect_media_recursive E g sec pt pd
        (JDict [(''title'', JStr outer),
                (''content'', JDict [(''title'', JStr inner),
                                     (''items'', JList [JDict [(''downloadUrl'', JStr u)]])])])
        JNull
      = sbind (make_media E sec pt pd (JStr outer) (type_of_url u) u) (\<lambda>m. Inr [m]))"
proof (intro conjI impI)
  show "collect_media_recursive E (Suc f) sec pt pd (JDict node) inh =
     sbind (node_media E f sec pt pd node inh) (\<lambda>own.
     sbind (collect_values E f sec pt pd node (if truthy inh then inh else get node ''title''))
       (\<lambda>below. Inr (own @ below)))"
    by (simp add: py_or_def)
next
  assume h: "outer \<noteq> [] \<and> 5 \<le> g \<and> 4 + path_frames E \<le> g"
  then have g: "g = Suc (Suc (Suc (Suc (Suc (g - 5)))))" by arith
  from h have p: "\<not> Suc (g - 5) < path_frames E" by arith
  from h have o: "outer \<noteq> []" by simp
  show "collect_media_recursive E g sec pt pd
        (JDict [(''title'', JStr outer),
                (''content'', JDict [(''title'', JStr inner),
                                     (''items'', JList [JDict [(''downloadUrl'', JStr u)]])])])
        JNull
      = sbind (make_media E sec pt pd (JStr outer) (type_of_url u) u) (\<lambda>m. Inr [m])"
    by (subst g)
       (simp add: node_media_def url_key_def is_str_at_def str_at_def get_def get_or_def
          py_or_def o p)
qed

theorem title_inheritance_keeps_outer_witness:
  "''Yoga Nidra'' \<noteq> [] \<and> (5::nat) \<le> 996 \<and> 4 + path_frames offline_env \<le> 996 \<and>
   collect_media_recursive offline_env 996 ''Sleep'' (JStr ''Pack'') (JStr [])
     (JDict [(''title'', JStr ''Yoga Nidra''),
             (''content'', JDict [(''title'', JStr ''Day 1''),
                                  (''items'', JList [JDict [(''downloadUrl'', JStr ''https://cdn/d1.mp4'')]])])])
     JNull
   = Inr [\<lparr>section_name = ''Sleep'', pack = JStr ''Pack'', pack_description = JStr [],
            session_title = JStr ''Yoga Nidra'', media_type = ''video'',
            cdn_url = ''https://cdn/d1.mp4'',
            local_path = ''media/Sleep/Pack/Yoga_Nidra.mp4''\<rparr>]"
proof -
  have h: "''Yoga Nidra'' \<noteq> [] \<and> (5::nat) \<le> 996 \<and> 4 + path_frames offline_env \<le> 996"
    by (simp add: offline_env_def)
  have m: "sbind (make_media offline_env ''Sleep'' (JStr ''Pack'') (JStr []) (JStr ''Yoga Nidra'')
                   (type_of_url ''https://cdn/d1.mp4'') ''https://cdn/d1.mp4'') (\<lambda>m. Inr [m])
     = Inr [\<lparr>section_name = ''Sleep'', pack = JStr ''Pack'', pack_description = JStr [],
            session_title = JStr ''Yoga Nidra'', media_type = ''video'',
            cdn_url = ''https://cdn/d1.mp4'',
            local_path = ''media/Sleep/Pack/Yoga_Nidra.mp4''\<rparr>]"
    by code_simp
  from title_inheritance_keeps_outer
    [of offline_env 0 "''Sleep''" "JStr ''Pack''" "JStr []" "[]" JNull "''Yoga Nidra''" 996
        "''Day 1''" "''https://cdn/d1.mp4''", THEN conjunct2, rule_format, OF h]
  show ?thesis using h m by (simp only: simp_thms)
qed

text \<open>
  Claim C3 as stated fails: under the node titled \<^verbatim>\<open>Inner\<close>, itself under the node titled
  \<^verbatim>\<open>Outer\<close>, the reference is emitted with the title \<^verbatim>\<open>Outer\<close>.
\<close>

theorem title_inheritance_counterexample:
  "collect_media_recursive offline_env 996 ''Sec'' (JStr ''Pack'') (JStr [])
     (JDict [(''title'', JStr ''Outer''),
             (''content'', JDict [(''title'', JStr ''Inner''),
                                  (''items'', JList [JDict [(''downloadUrl'', JStr ''x.mp3'')]])])])
     JNull
   = Inr [\<lparr>section_name = ''Sec'', pack = JStr ''Pack'', pack_description = JStr [],
            session_title = JStr ''Outer'', media_type = ''audio'', cdn_url = ''x.mp3'',
            local_path = ''media/Sec/Pack/Outer.mp3''\<rparr>]"
  by code_simp

text \<open>
  Claim C4. On the mapping of the specification, walked with no inherited title, the
  walker returns two references in document order: the first titled \<^verbatim>\<open>Outer\<close> with
  media type audio, the second titled \<^verbatim>\<open>Inner\<close> with media type video. This holds for
  every section, pack title string and pack description, wherever the extension of
  \<^verbatim>\<open>a.mp3\<close> is \<^verbatim>\<open>.mp3\<close> and that of \<^verbatim>\<open>b.mp4\<close> is \<^verbatim>\<open>.mp4\<close>, with any number of frames
  that covers the four levels of the mapping and the path builder.
\<close>

theorem walker_example:
  assumes "url_ext E ''a.mp3'' = Inr ''.mp3''" and "url_ext E ''b.mp4'' = Inr ''.mp4''"
      and "4 \<le> f" and "3 + path_frames E \<le> f"
  shows "collect_media_recursive E f sec (JStr p) pd
     (JDict [(''title'', JStr ''Outer''),
        (''content'', JList [JDict [(''downloadUrl'', JStr ''a.mp3'')],
                             JDict [(''subTitle'', JStr ''Inner''), (''URL'', JStr ''b.mp4'')]])])
     JNull
   = Inr [\<lparr>section_name = sec, pack = JStr p, pack_description = pd,
            session_title = JStr ''Outer'', media_type = ''audio'', cdn_url = ''a.mp3'',
            local_path = ''media/'' @ sanitize_str sec @ ''/'' @ sanitize_str p @ ''/Outer.mp3''\<rparr>,
          \<lparr>section_name = sec, pack = JStr p, pack_description = pd,
            session_title = JStr ''Inner'', media_type = ''video'', cdn_url = ''b.mp4'',
            local_path = ''media/'' @ sanitize_str sec @ ''/'' @ sanitize_str p @ ''/Inner.mp4''\<rparr>]"
proof -
  from assms(3) have g: "f = Suc (Suc (Suc (Suc (f - 4))))" by simp
  from assms(3,4) have q: "\<not> Suc (f - 4) < path_frames E" by simp
  show ?thesis
    by (subst g)
       (simp add: node_media_def url_key_def is_str_at_def str_at_def get_def get_or_def
          py_or_def make_media_def build_local_path_def type_of_url_def endswith_def
          sanitize_Outer sanitize_Inner out_root_def assms(1,2) q)
qed

theorem walker_example_witness:
  "url_ext offline_env ''a.mp3'' = Inr ''.mp3'' \<and> url_ext offline_env ''b.mp4'' = Inr ''.mp4'' \<and>
   (4::nat) \<le> 996 \<and> 3 + path_frames offline_env \<le> 996 \<and>
   collect_media_recursive offline_env 996 ''Stress'' (JStr ''Calm Mind'') (JStr ''d'')
     (JDict [(''title'', JStr ''Outer''),
        (''content'', JList [JDict [(''downloadUrl'', JStr ''a.mp3'')],
                             JDict [(''subTitle'', JStr ''Inner''), (''URL'', JStr ''b.mp4'')]])])
     JNull
   = Inr [\<lparr>section_name = ''Stress'', pack = JStr ''Calm Mind'', pack_description = JStr ''d'',
            session_title = JStr ''Outer'', media_type = ''audio'', cdn_url = ''a.mp3'',
            local_path = ''media/Stress/Calm_Mind/Outer.mp3''\<rparr>,
          \<lparr>section_name = ''Stress'', pack = JStr ''Calm Mind'', pack_description = JStr ''d'',
            session_title = JStr ''Inner'', media_type = ''video'', cdn_url = ''b.mp4'',
            local_path = ''media/Stress/Calm_Mind/Inner.mp4''\<rparr>]"
proof -
  have h1: "url_ext offline_env ''a.mp3'' = Inr ''.mp3''" by code_simp
  have h2: "url_ext offline_env ''b.mp4'' = Inr ''.mp4''" by code_simp
  have h3: "(4::nat) \<le> 996" by simp
  have h4: "3 + path_frames offline_env \<le> 996" by (simp add: offline_env_def)
  have s1: "sanitize_str ''Stress'' = ''Stress''" by code_simp
  have s2: "sanitize_str ''Calm Mind'' = ''Calm_Mind''" by code_simp
  from walker_example [OF h1 h2 h3 h4, of "''Stress''" "''Calm Mind''" "JStr ''d''"]
  show ?thesis using h1 h2 h3 h4 s1 s2 by simp
qed




section \<open>Properties of the de-duplication\<close>

lemma assign_keys:
  "map fst (assign d u e) = (if map_of d u = None then map fst d @ [u] else map fst d)"
  by (auto simp: assign_def intro: map_idI)

lemma assign_distinct:
  "distinct (map fst d) \<Longrightarrow> distinct (map fst (assign d u e))"
  by (auto simp: assign_keys map_of_eq_None_iff)

lemma assign_urls:
  "map (\<lambda>kv. cdn_url (snd kv)) d = map fst d \<Longrightarrow>
   map (\<lambda>kv. cdn_url (snd kv)) (assign d (cdn_url e) e) = map fst (assign d (cdn_url e) e)"
  by (induction d) (auto simp: assign_def split: if_splits)

lemma keyed_assign:
  "keyed d \<Longrightarrow> keyed (assign d (cdn_url e) e)"
  by (simp add: keyed_def assign_distinct assign_urls)

lemma keyed_entry: "keyed d \<Longrightarrow> dedup_entry d e = Inr d' \<Longrightarrow> keyed d'"
  by (auto simp: dedup_entry_def sbind_def keyed_assign
      split: option.splits sum.splits if_splits)

lemma keyed_loop: "keyed d \<Longrightarrow> dedup_loop d es = Inr d' \<Longrightarrow> keyed d'"
proof (induction es arbitrary: d)
  case Nil
  then show ?case by simp
next
  case (Cons e es)
  then show ?case by (auto simp: sbind_def split: sum.splits dest: keyed_entry)
qed

lemma dedup_distinct: "dedup ms = Inr refs \<Longrightarrow> distinct (map cdn_url refs)"
proof -
  assume a: "dedup ms = Inr refs"
  then obtain d where d: "dedup_loop [] ms = Inr d" "refs = map snd d"
    by (auto simp: dedup_def sbind_def split: sum.splits)
  have "keyed []" by (simp add: keyed_def)
  then have k: "keyed d" using d(1) by (rule keyed_loop)
  have "map cdn_url refs = map (\<lambda>kv. cdn_url (snd kv)) d" using d(2) by simp
  also have "\<dots> = map fst d" using k unfolding keyed_def by (rule conjunct2)
  finally show ?thesis using k unfolding keyed_def by (simp only:)
qed

text \<open>
  Claim C2. Of two references with the same URL, one whose lower-cased title starts with
  \<^verbatim>\<open>session\<close> and one whose does not, the de-duplication keeps the second kind, whichever
  comes first: both orders give the same one-element result.
\<close>

theorem dedup_order_independent:
  assumes "cdn_url a = cdn_url b"
      and "session_title a = JStr ta" and "session_title b = JStr tb"
      and "startswith (map lower_char ta) ''session''"
      and "\<not> startswith (map lower_char tb) ''session''"
  shows "dedup [a, b] = Inr [b] \<and> dedup [b, a] = Inr [b]"
  using assms by (simp add: dedup_def dedup_entry_def assign_def)

theorem dedup_order_independent_witness:
  "dedup [\<lparr>section_name = ''Sleep'', pack = JStr ''Yoga Nidra'', pack_description = JStr [],
            session_title = JStr ''Session'', media_type = ''audio'',
            cdn_url = ''https://cdn/r.mp3'', local_path = ''media/Sleep/Yoga_Nidra/Session.mp3''\<rparr>,
          \<lparr>section_name = ''Sleep'', pack = JStr ''Yoga Nidra'', pack_description = JStr [],
            session_title = JStr ''Deep Relaxation'', media_type = ''audio'',
            cdn_url = ''https://cdn/r.mp3'',
            local_path = ''media/Sleep/Yoga_Nidra/Deep_Relaxation.mp3''\<rparr>]
   = Inr [\<lparr>section_name = ''Sleep'', pack = JStr ''Yoga Nidra'', pack_description = JStr [],
            session_title = JStr ''Deep Relaxation'', media_type = ''audio'',
            cdn_url = ''https://cdn/r.mp3'',
            local_path = ''media/Sleep/Yoga_Nidra/Deep_Relaxation.mp3''\<rparr>]
   \<and>
   dedup [\<lparr>section_name = ''Sleep'', pack = JStr ''Yoga Nidra'', pack_description = JStr [],
            session_title = JStr ''Deep Relaxation'', media_type = ''audio'',
            cdn_url = ''https://cdn/r.mp3'',
            local_path = ''media/Sleep/Yoga_Nidra/Deep_Relaxation.mp3''\<rparr>,
          \<lparr>section_name = ''Sleep'', pack = JStr ''Yoga Nidra'', pack_description = JStr [],
            session_title = JStr ''Session'', media_type = ''audio'',
            cdn_url = ''https://cdn/r.mp3'', local_path = ''media/Sleep/Yoga_Nidra/Session.mp3''\<rparr>]
   = Inr [\<lparr>section_name = ''Sleep'', pack = JStr ''Yoga Nidra'', pack_description = JStr [],
            session_title = JStr ''Deep Relaxation'', media_type = ''audio'',
            cdn_url = ''https://cdn/r.mp3'',
            local_path = ''media/Sleep/Yoga_Nidra/Deep_Relaxation.mp3''\<rparr>]"
proof -
  have g: "startswith (map lower_char ''Session'') ''session''" by code_simp
  have n: "\<not> startswith (map lower_char ''Deep Relaxation'') ''session''" by code_simp
  show ?thesis
    by (rule dedup_order_independent [OF _ _ _ g n]) simp_all
qed

text \<open>
  Claim C9, as the code has it. The list an item resolves to never holds a URL twice,
  and \<^verbatim>\<open>crawl\<close> appends that list to the flat list as it is: nothing compares the URLs of
  different items.
\<close>

theorem item_urls_distinct:
  "(extract_media_from_item E item sec pt pd w = (Inr refs, w') \<longrightarrow>
      distinct (map cdn_url refs)) \<and>
   (crawl_item E sec (JDict item) c = Inr c' \<longrightarrow>
      (\<exists>med_list w'. extract_media_from_item E item sec
                         (get_or item ''title'' (JStr ''Unknown Pack''))
                         (get_or item ''description'' (JStr []))
                         (warned_login_required c) = (Inr med_list, w') \<and>
                      media_items c' = media_items c @ med_list))"
proof (intro conjI impI)
  assume "extract_media_from_item E item sec pt pd w = (Inr refs, w')"
  then show "distinct (map cdn_url refs)"
    by (auto simp: extract_media_from_item_def ebind_def split: prod.splits sum.splits
        dest: dedup_distinct)
next
  assume "crawl_item E sec (JDict item) c = Inr c'"
  then show "\<exists>med_list w'. extract_media_from_item E item sec
                         (get_or item ''title'' (JStr ''Unknown Pack''))
                         (get_or item ''description'' (JStr []))
                         (warned_login_required c) = (Inr med_list, w') \<and>
                      media_items c' = media_items c @ med_list"
    by (auto simp: Let_def split: prod.splits sum.splits if_splits)
qed

theorem item_urls_distinct_witness:
  "extract_media_from_item offline_env
     [(''title'', JStr ''Pack A''),
      (''content'', JDict [(''downloadUrl'', JStr ''https://cdn/a.mp3'')])]
     ''Sleep'' (JStr ''Pack A'') (JStr []) False
   = (Inr [\<lparr>section_name = ''Sleep'', pack = JStr ''Pack A'', pack_description = JStr [],
             session_title = JStr ''Session'', media_type = ''audio'',
             cdn_url = ''https://cdn/a.mp3'',
             local_path = ''media/Sleep/Pack_A/Session.mp3''\<rparr>], False)
   \<and> distinct (map cdn_url
        [\<lparr>section_name = ''Sleep'', pack = JStr ''Pack A'', pack_description = JStr [],
             session_title = JStr ''Session'', media_type = ''audio'',
             cdn_url = ''https://cdn/a.mp3'',
             local_path = ''media/Sleep/Pack_A/Session.mp3''\<rparr>])
   \<and> (\<exists>c'. crawl_item offline_env ''Sleep''
          (JDict [(''title'', JStr ''Pack A''),
                  (''content'', JDict [(''downloadUrl'', JStr ''https://cdn/a.mp3'')])])
          new_crawler = Inr c' \<and>
        media_items c' =
          [\<lparr>section_name = ''Sleep'', pack = JStr ''Pack A'', pack_description = JStr [],
             session_title = JStr ''Session'', media_type = ''audio'',
             cdn_url = ''https://cdn/a.mp3'',
             local_path = ''media/Sleep/Pack_A/Session.mp3''\<rparr>])"
proof -
  let ?item = "[(''title'', JStr ''Pack A''),
      (''content'', JDict [(''downloadUrl'', JStr ''https://cdn/a.mp3'')])]"
  let ?m = "\<lparr>section_name = ''Sleep'', pack = JStr ''Pack A'', pack_description = JStr [],
             session_title = JStr ''Session'', media_type = ''audio'',
             cdn_url = ''https://cdn/a.mp3'',
             local_path = ''media/Sleep/Pack_A/Session.mp3''\<rparr>"
  have e: "extract_media_from_item offline_env ?item ''Sleep'' (JStr ''Pack A'') (JStr []) False
             = (Inr [?m], False)"
    by code_simp
  have t: "get_or ?item ''title'' (JStr ''Unknown Pack'') = JStr ''Pack A''"
          "get_or ?item ''description'' (JStr []) = JStr []"
    by code_simp+
  have d: "distinct (map cdn_url [?m])"
    using item_urls_distinct [THEN conjunct1, rule_format, OF e] .
  obtain c' where c: "crawl_item offline_env ''Sleep'' (JDict ?item) new_crawler = Inr c'"
    by (simp only: crawl_item.simps t Let_def new_crawler_def crawler.simps e) simp
  from item_urls_distinct [THEN conjunct2, rule_format, OF c]
  obtain med_list w' where
    m: "extract_media_from_item offline_env ?item ''Sleep''
          (get_or ?item ''title'' (JStr ''Unknown Pack''))
          (get_or ?item ''description'' (JStr [])) (warned_login_required new_crawler)
        = (Inr med_list, w')"
       "media_items c' = media_items new_crawler @ med_list"
    by (elim exE conjE)
  have "warned_login_required new_crawler = False" "media_items new_crawler = []"
    by (simp_all add: new_crawler_def)
  with m e t have "media_items c' = [?m]" by simp
  with c have "\<exists>c'. crawl_item offline_env ''Sleep'' (JDict ?item) new_crawler = Inr c' \<and>
        media_items c' = [?m]" by (intro exI conjI)
  with e d show ?thesis by (intro conjI)
qed

text \<open>
  Claim C9 as stated fails in its second half: two packs of one section that expose the
  same file leave that URL twice in the flat list.
\<close>

theorem flat_list_counterexample:
  "(case crawl browse_env [(''Sleep'', ''https://www.cult.fit/live/mindfulness/sleep'')]
           new_crawler of
      Inl e \<Rightarrow> []
    | Inr c \<Rightarrow> map cdn_url (media_items c))
   = [''https://cdn/a.mp3'', ''https://cdn/a.mp3'']"
  by code_simp

section \<open>Properties of the query decoding\<close>

lemma split_first_append: "c \<notin> set a \<Longrightarrow> split_first c (a @ c # b) = Some (a, b)"
  by (induction a) auto

lemma split_on_append: "c \<notin> set a \<Longrightarrow> split_on c (a @ c # b) = a # split_on c b"
  by (induction a) auto

lemma split_on_none: "c \<notin> set a \<Longrightarrow> split_on c a = [a]"
  by (induction a) auto

lemma key_names:
  "unquote (plus_to_space ''absoluteAudioUrl'') = ''absoluteAudioUrl''"
  "unquote (plus_to_space ''title'') = ''title''"
  "unquote (plus_to_space ''packId'') = ''packId''"
  "unquote (plus_to_space ''contentId'') = ''contentId''"
  by code_simp+

lemma field_audio:
  "v \<noteq> [] \<Longrightarrow> parse_field (''absoluteAudioUrl='' @ v) = [(''absoluteAudioUrl'', unquote (plus_to_space v))]"
  using key_names(1) by (simp add: parse_field_def)

lemma field_title:
  "v \<noteq> [] \<Longrightarrow> parse_field (''title='' @ v) = [(''title'', unquote (plus_to_space v))]"
  using key_names(2) by (simp add: parse_field_def)

lemma field_pack:
  "v \<noteq> [] \<Longrightarrow> parse_field (''packId='' @ v) = [(''packId'', unquote (plus_to_space v))]"
  using key_names(3) by (simp add: parse_field_def)

lemma field_content:
  "v \<noteq> [] \<Longrightarrow> parse_field (''contentId='' @ v) = [(''contentId'', unquote (plus_to_space v))]"
  using key_names(4) by (simp add: parse_field_def)

lemma split_query:
  assumes "CHR ''&'' \<notin> set v" "CHR ''&'' \<notin> set t" "CHR ''&'' \<notin> set p" "CHR ''&'' \<notin> set c"
  shows "split_on CHR ''&'' (''absoluteAudioUrl='' @ v @ ''&title='' @ t @ ''&packId='' @ p @ ''&contentId='' @ c)
     = [''absoluteAudioUrl='' @ v, ''title='' @ t, ''packId='' @ p, ''contentId='' @ c]"
  using assms by (simp add: split_on_append split_on_none)

lemma qsl_query:
  assumes "v \<noteq> []" "t \<noteq> []" "p \<noteq> []" "c \<noteq> []"
      and "CHR ''&'' \<notin> set v" "CHR ''&'' \<notin> set t" "CHR ''&'' \<notin> set p" "CHR ''&'' \<notin> set c"
  shows "parse_qsl (''absoluteAudioUrl='' @ v @ ''&title='' @ t @ ''&packId='' @ p @ ''&contentId='' @ c)
     = [(''absoluteAudioUrl'', unquote (plus_to_space v)), (''title'', unquote (plus_to_space t)),
        (''packId'', unquote (plus_to_space p)), (''contentId'', unquote (plus_to_space c))]"
proof -
  have "parse_qsl (''absoluteAudioUrl='' @ v @ ''&title='' @ t @ ''&packId='' @ p @ ''&contentId='' @ c)
      = parse_field (''absoluteAudioUrl='' @ v) @ parse_field (''title='' @ t)
        @ parse_field (''packId='' @ p) @ parse_field (''contentId='' @ c)"
    unfolding parse_qsl_def split_query [OF assms(5-8)] by (simp only: list.map concat.simps append_Nil2)
  also have "\<dots> = [(''absoluteAudioUrl'', unquote (plus_to_space v)), (''title'', unquote (plus_to_space t)),
        (''packId'', unquote (plus_to_space p)), (''contentId'', unquote (plus_to_space c))]"
    unfolding field_audio [OF assms(1)] field_title [OF assms(2)] field_pack [OF assms(3)]
        field_content [OF assms(4)] by simp
  finally show ?thesis .
qed

lemma query_of_prefix: "query_of (''curefit://x?'' @ q) = q"
  by (simp add: query_of_def)

lemma starts_prefix: "startswith (''curefit://x?'' @ q) ''curefit://''"
  by (simp add: startswith_def)

lemma parse_query_fields:
  assumes "parse_qsl q = [(''absoluteAudioUrl'', a), (''title'', t), (''packId'', p), (''contentId'', c)]"
  shows "parse_query q
     = \<lparr>info_media_url = Some (unquote a), info_media_type = Some ''audio'',
        info_session_title = Some t, info_pack_id = Some p, info_content_id = Some c\<rparr>"
  by (simp add: parse_query_def parse_qs_def assms first_value_def empty_info_def Let_def)

lemma decode_all_fields:
  assumes "v \<noteq> []" "t \<noteq> []" "p \<noteq> []" "c \<noteq> []"
      and "CHR ''&'' \<notin> set v" "CHR ''&'' \<notin> set t" "CHR ''&'' \<notin> set p" "CHR ''&'' \<notin> set c"
  shows "parse_curefit_url (JStr (''curefit://x?'' @ (''absoluteAudioUrl='' @ v @ ''&title='' @ t @ ''&packId='' @ p @ ''&contentId='' @ c)))
     = \<lparr>info_media_url = Some (unquote (unquote (plus_to_space v))),
        info_media_type = Some ''audio'',
        info_session_title = Some (unquote (plus_to_space t)),
        info_pack_id = Some (unquote (plus_to_space p)),
        info_content_id = Some (unquote (plus_to_space c))\<rparr>"
  by (simp only: parse_curefit_url.simps query_of_prefix starts_prefix if_True
      parse_query_fields [OF qsl_query [OF assms]])

text \<open>
  Claim C10. The media URL is unquoted twice, once by \<^verbatim>\<open>parse_qs\<close> and once more by the
  explicit \<^verbatim>\<open>unquote\<close>, while title, pack id and content id are unquoted once. For the
  query value \<^verbatim>\<open>https%3A%2F%2Fcdn%2Fa%2520b.mp3\<close> the parsed value is
  \<^verbatim>\<open>https://cdn/a%20b.mp3\<close> and the emitted URL is \<^verbatim>\<open>https://cdn/a b.mp3\<close>.
\<close>

theorem media_url_unquoted_twice:
  "(v \<noteq> [] \<and> t \<noteq> [] \<and> p \<noteq> [] \<and> c \<noteq> [] \<and>
    CHR ''&'' \<notin> set v \<and> CHR ''&'' \<notin> set t \<and> CHR ''&'' \<notin> set p \<and> CHR ''&'' \<notin> set c \<longrightarrow>
    parse_curefit_url (JStr (''curefit://x?'' @ (''absoluteAudioUrl='' @ v @ ''&title='' @ t
                                @ ''&packId='' @ p @ ''&contentId='' @ c)))
     = \<lparr>info_media_url = Some (unquote (unquote (plus_to_space v))),
        info_media_type = Some ''audio'',
        info_session_title = Some (unquote (plus_to_space t)),
        info_pack_id = Some (unquote (plus_to_space p)),
        info_content_id = Some (unquote (plus_to_space c))\<rparr>)
   \<and> parse_qs (query_of ''curefit://x?absoluteAudioUrl=https%3A%2F%2Fcdn%2Fa%2520b.mp3&title=A%2520B'')
        ''absoluteAudioUrl'' = Some [''https://cdn/a%20b.mp3'']
   \<and> parse_curefit_url (JStr ''curefit://x?absoluteAudioUrl=https%3A%2F%2Fcdn%2Fa%2520b.mp3&title=A%2520B'')
     = \<lparr>info_media_url = Some ''https://cdn/a b.mp3'', info_media_type = Some ''audio'',
        info_session_title = Some ''A%20B'', info_pack_id = None, info_content_id = None\<rparr>"
proof (intro conjI impI)
  assume "v \<noteq> [] \<and> t \<noteq> [] \<and> p \<noteq> [] \<and> c \<noteq> [] \<and>
    CHR ''&'' \<notin> set v \<and> CHR ''&'' \<notin> set t \<and> CHR ''&'' \<notin> set p \<and> CHR ''&'' \<notin> set c"
  then show "parse_curefit_url (JStr (''curefit://x?'' @ (''absoluteAudioUrl='' @ v @ ''&title='' @ t
                                @ ''&packId='' @ p @ ''&contentId='' @ c)))
     = \<lparr>info_media_url = Some (unquote (unquote (plus_to_space v))),
        info_media_type = Some ''audio'',
        info_session_title = Some (unquote (plus_to_space t)),
        info_pack_id = Some (unquote (plus_to_space p)),
        info_content_id = Some (unquote (plus_to_space c))\<rparr>"
    by (elim conjE) (rule decode_all_fields)
next
  show "parse_qs (query_of ''curefit://x?absoluteAudioUrl=https%3A%2F%2Fcdn%2Fa%2520b.mp3&title=A%2520B'')
        ''absoluteAudioUrl'' = Some [''https://cdn/a%20b.mp3'']"
    by code_simp
next
  show "parse_curefit_url (JStr ''curefit://x?absoluteAudioUrl=https%3A%2F%2Fcdn%2Fa%2520b.mp3&title=A%2520B'')
     = \<lparr>info_media_url = Some ''https://cdn/a b.mp3'', info_media_type = Some ''audio'',
        info_session_title = Some ''A%20B'', info_pack_id = None, info_content_id = None\<rparr>"
    by code_simp
qed

theorem media_url_unquoted_twice_witness:
  "''a%2520b'' \<noteq> [] \<and> ''c%2520d'' \<noteq> [] \<and> ''7'' \<noteq> [] \<and> ''9'' \<noteq> [] \<and>
   CHR ''&'' \<notin> set ''a%2520b'' \<and> CHR ''&'' \<notin> set ''c%2520d'' \<and>
   CHR ''&'' \<notin> set ''7'' \<and> CHR ''&'' \<notin> set ''9'' \<and>
   parse_curefit_url (JStr ''curefit://x?absoluteAudioUrl=a%2520b&title=c%2520d&packId=7&contentId=9'')
     = \<lparr>info_media_url = Some ''a b'', info_media_type = Some ''audio'',
        info_session_title = Some ''c%20d'', info_pack_id = Some ''7'',
        info_content_id = Some ''9''\<rparr>"
proof -
  have h: "''a%2520b'' \<noteq> [] \<and> ''c%2520d'' \<noteq> [] \<and> ''7'' \<noteq> [] \<and> ''9'' \<noteq> [] \<and>
   CHR ''&'' \<notin> set ''a%2520b'' \<and> CHR ''&'' \<notin> set ''c%2520d'' \<and>
   CHR ''&'' \<notin> set ''7'' \<and> CHR ''&'' \<notin> set ''9''" by simp
  have u: "unquote (unquote (plus_to_space ''a%2520b'')) = ''a b''"
          "unquote (plus_to_space ''c%2520d'') = ''c%20d''"
          "unquote (plus_to_space ''7'') = ''7''" "unquote (plus_to_space ''9'') = ''9''"
    by code_simp+
  from media_url_unquoted_twice [THEN conjunct1, rule_format, OF h]
  show ?thesis using h u by simp
qed

lemma key_video: "unquote (plus_to_space ''absoluteVideoUrl'') = ''absoluteVideoUrl''"
  by code_simp

lemma field_video:
  "v \<noteq> [] \<Longrightarrow> parse_field (''absoluteVideoUrl='' @ v) = [(''absoluteVideoUrl'', unquote (plus_to_space v))]"
  using key_video by (simp add: parse_field_def)

lemma field_blank_audio: "parse_field ''absoluteAudioUrl='' = []"
  by code_simp

lemma field_named:
  assumes "split_first CHR ''='' fld = Some (n, v)" and "v \<noteq> []"
  shows "parse_field fld = [(unquote (plus_to_space n), unquote (plus_to_space v))]"
proof -
  from assms(1) have "fld \<noteq> []" by (cases fld) simp_all
  with assms show ?thesis by (simp add: parse_field_def)
qed

lemma qsl_member:
  assumes "fld \<in> set (split_on CHR ''&'' q)"
      and "split_first CHR ''='' fld = Some (n, v)" and "v \<noteq> []"
  shows "(unquote (plus_to_space n), unquote (plus_to_space v)) \<in> set (parse_qsl q)"
proof -
  have "(unquote (plus_to_space n), unquote (plus_to_space v)) \<in> set (parse_field fld)"
    unfolding field_named [OF assms(2,3)] by simp
  with assms(1) show ?thesis unfolding parse_qsl_def by (simp only: set_concat set_map) blast
qed

lemma qs_present:
  assumes "(k, x) \<in> set (parse_qsl q)"
  shows "parse_qs q k \<noteq> None"
proof -
  from assms have "(k, x) \<in> set (filter (\<lambda>nv. fst nv = k) (parse_qsl q))" by simp
  then have "filter (\<lambda>nv. fst nv = k) (parse_qsl q) \<noteq> []" by (metis empty_iff empty_set)
  then show ?thesis by (auto simp: parse_qs_def split: list.splits)
qed

lemma audio_type: "parse_qs q ''absoluteAudioUrl'' \<noteq> None \<Longrightarrow>
    info_media_type (parse_query q) = Some ''audio''"
  by (simp add: parse_query_def Let_def)

lemma audio_field_selects_audio:
  assumes "startswith u ''curefit://''"
      and "fld \<in> set (split_on CHR ''&'' (query_of u))"
      and "split_first CHR ''='' fld = Some (n, v)" and "v \<noteq> []"
      and "unquote (plus_to_space n) = ''absoluteAudioUrl''"
  shows "info_media_type (parse_curefit_url (JStr u)) = Some ''audio''"
proof -
  from qsl_member [OF assms(2,3,4)] assms(5)
  have "(''absoluteAudioUrl'', unquote (plus_to_space v)) \<in> set (parse_qsl (query_of u))" by simp
  then have "parse_qs (query_of u) ''absoluteAudioUrl'' \<noteq> None" by (rule qs_present)
  then have "info_media_type (parse_query (query_of u)) = Some ''audio''" by (rule audio_type)
  with assms(1) show ?thesis by simp
qed

lemma parse_query_two:
  assumes "parse_qsl q = [(''absoluteAudioUrl'', a), (''absoluteVideoUrl'', v)]
         \<or> parse_qsl q = [(''absoluteVideoUrl'', v), (''absoluteAudioUrl'', a)]"
  shows "parse_query q
     = \<lparr>info_media_url = Some (unquote a), info_media_type = Some ''audio'',
        info_session_title = None, info_pack_id = None, info_content_id = None\<rparr>"
  using assms
  by (auto simp: parse_query_def parse_qs_def first_value_def empty_info_def Let_def)

lemma parse_query_video_only:
  assumes "parse_qsl q = [(''absoluteVideoUrl'', v)]"
  shows "parse_query q
     = \<lparr>info_media_url = Some (unquote v), info_media_type = Some ''video'',
        info_session_title = None, info_pack_id = None, info_content_id = None\<rparr>"
  by (simp add: parse_query_def parse_qs_def assms first_value_def empty_info_def Let_def)

lemma qsl_audio_video:
  assumes "a \<noteq> []" "v \<noteq> []" "CHR ''&'' \<notin> set a" "CHR ''&'' \<notin> set v"
  shows "parse_qsl (''absoluteAudioUrl='' @ a @ ''&absoluteVideoUrl='' @ v)
     = [(''absoluteAudioUrl'', unquote (plus_to_space a)),
        (''absoluteVideoUrl'', unquote (plus_to_space v))]"
proof -
  have "split_on CHR ''&'' (''absoluteAudioUrl='' @ a @ ''&absoluteVideoUrl='' @ v)
      = [''absoluteAudioUrl='' @ a, ''absoluteVideoUrl='' @ v]"
    using assms(3,4) by (simp add: split_on_append split_on_none)
  then have "parse_qsl (''absoluteAudioUrl='' @ a @ ''&absoluteVideoUrl='' @ v)
      = parse_field (''absoluteAudioUrl='' @ a) @ parse_field (''absoluteVideoUrl='' @ v)"
    unfolding parse_qsl_def by (simp only: list.map concat.simps append_Nil2)
  also have "\<dots> = [(''absoluteAudioUrl'', unquote (plus_to_space a)),
        (''absoluteVideoUrl'', unquote (plus_to_space v))]"
    unfolding field_audio [OF assms(1)] field_video [OF assms(2)] by simp
  finally show ?thesis .
qed

lemma qsl_video_audio:
  assumes "a \<noteq> []" "v \<noteq> []" "CHR ''&'' \<notin> set a" "CHR ''&'' \<notin> set v"
  shows "parse_qsl (''absoluteVideoUrl='' @ v @ ''&absoluteAudioUrl='' @ a)
     = [(''absoluteVideoUrl'', unquote (plus_to_space v)),
        (''absoluteAudioUrl'', unquote (plus_to_space a))]"
proof -
  have "split_on CHR ''&'' (''absoluteVideoUrl='' @ v @ ''&absoluteAudioUrl='' @ a)
      = [''absoluteVideoUrl='' @ v, ''absoluteAudioUrl='' @ a]"
    using assms(3,4) by (simp add: split_on_append split_on_none)
  then have "parse_qsl (''absoluteVideoUrl='' @ v @ ''&absoluteAudioUrl='' @ a)
      = parse_field (''absoluteVideoUrl='' @ v) @ parse_field (''absoluteAudioUrl='' @ a)"
    unfolding parse_qsl_def by (simp only: list.map concat.simps append_Nil2)
  also have "\<dots> = [(''absoluteVideoUrl'', unquote (plus_to_space v)),
        (''absoluteAudioUrl'', unquote (plus_to_space a))]"
    unfolding field_audio [OF assms(1)] field_video [OF assms(2)] by simp
  finally show ?thesis .
qed

lemma qsl_blank_audio:
  assumes "v \<noteq> []" "CHR ''&'' \<notin> set v"
  shows "parse_qsl (''absoluteAudioUrl='' @ ''&absoluteVideoUrl='' @ v)
     = [(''absoluteVideoUrl'', unquote (plus_to_space v))]"
proof -
  have "split_on CHR ''&'' (''absoluteAudioUrl='' @ ''&absoluteVideoUrl='' @ v)
      = [''absoluteAudioUrl='', ''absoluteVideoUrl='' @ v]"
    using assms(2) by (simp add: split_on_none)
  then have "parse_qsl (''absoluteAudioUrl='' @ ''&absoluteVideoUrl='' @ v)
      = parse_field ''absoluteAudioUrl='' @ parse_field (''absoluteVideoUrl='' @ v)"
    unfolding parse_qsl_def by (simp only: list.map concat.simps append_Nil2)
  also have "\<dots> = [(''absoluteVideoUrl'', unquote (plus_to_space v))]"
    unfolding field_blank_audio field_video [OF assms(1)] by simp
  finally show ?thesis .
qed

lemma decode_audio_video:
  assumes "a \<noteq> []" "v \<noteq> []" "CHR ''&'' \<notin> set a" "CHR ''&'' \<notin> set v"
  shows "parse_curefit_url (JStr (''curefit://x?'' @ (''absoluteAudioUrl='' @ a @ ''&absoluteVideoUrl='' @ v)))
     = \<lparr>info_media_url = Some (unquote (unquote (plus_to_space a))),
        info_media_type = Some ''audio'',
        info_session_title = None, info_pack_id = None, info_content_id = None\<rparr>"
  by (simp only: parse_curefit_url.simps query_of_prefix starts_prefix if_True
      parse_query_two [OF disjI1 [OF qsl_audio_video [OF assms]]])

lemma decode_video_audio:
  assumes "a \<noteq> []" "v \<noteq> []" "CHR ''&'' \<notin> set a" "CHR ''&'' \<notin> set v"
  shows "parse_curefit_url (JStr (''curefit://x?'' @ (''absoluteVideoUrl='' @ v @ ''&absoluteAudioUrl='' @ a)))
     = \<lparr>info_media_url = Some (unquote (unquote (plus_to_space a))),
        info_media_type = Some ''audio'',
        info_session_title = None, info_pack_id = None, info_content_id = None\<rparr>"
  by (simp only: parse_curefit_url.simps query_of_prefix starts_prefix if_True
      parse_query_two [OF disjI2 [OF qsl_video_audio [OF assms]]])

lemma decode_blank_audio:
  assumes "v \<noteq> []" "CHR ''&'' \<notin> set v"
  shows "parse_curefit_url (JStr (''curefit://x?'' @ (''absoluteAudioUrl='' @ ''&absoluteVideoUrl='' @ v)))
     = \<lparr>info_media_url = Some (unquote (unquote (plus_to_space v))),
        info_media_type = Some ''video'',
        info_session_title = None, info_pack_id = None, info_content_id = None\<rparr>"
  by (simp only: parse_curefit_url.simps query_of_prefix starts_prefix if_True
      parse_query_video_only [OF qsl_blank_audio [OF assms]])

lemma qsl_member_iff:
  "(k, x) \<in> set (parse_qsl q) \<longleftrightarrow>
     (\<exists>fld \<in> set (split_on CHR ''&'' q). \<exists>n v.
        split_first CHR ''='' fld = Some (n, v) \<and> v \<noteq> [] \<and>
        unquote (plus_to_space n) = k \<and> unquote (plus_to_space v) = x)"
proof
  assume "(k, x) \<in> set (parse_qsl q)"
  then obtain fld where f: "fld \<in> set (split_on CHR ''&'' q)" and m: "(k, x) \<in> set (parse_field fld)"
    unfolding parse_qsl_def by (auto simp only: set_concat set_map)
  from m have ne: "fld \<noteq> []" by (auto simp: parse_field_def)
  from m ne obtain n v where s: "split_first CHR ''='' fld = Some (n, v)"
    by (cases "split_first CHR ''='' fld") (auto simp: parse_field_def)
  from m ne s have v: "v \<noteq> []" by (auto simp: parse_field_def split: if_splits)
  from m field_named [OF s v] have "unquote (plus_to_space n) = k" "unquote (plus_to_space v) = x"
    by simp_all
  with f s v show "\<exists>fld \<in> set (split_on CHR ''&'' q). \<exists>n v.
        split_first CHR ''='' fld = Some (n, v) \<and> v \<noteq> [] \<and>
        unquote (plus_to_space n) = k \<and> unquote (plus_to_space v) = x" by blast
next
  assume "\<exists>fld \<in> set (split_on CHR ''&'' q). \<exists>n v.
        split_first CHR ''='' fld = Some (n, v) \<and> v \<noteq> [] \<and>
        unquote (plus_to_space n) = k \<and> unquote (plus_to_space v) = x"
  then obtain fld n v where f: "fld \<in> set (split_on CHR ''&'' q)"
      and s: "split_first CHR ''='' fld = Some (n, v)" and v: "v \<noteq> []"
      and k: "unquote (plus_to_space n) = k" and x: "unquote (plus_to_space v) = x" by blast
  from qsl_member [OF f s v] k x show "(k, x) \<in> set (parse_qsl q)" by simp
qed

lemma qs_present_iff:
  "parse_qs q k \<noteq> None \<longleftrightarrow> (\<exists>x. (k, x) \<in> set (parse_qsl q))"
proof
  assume "parse_qs q k \<noteq> None"
  then have "filter (\<lambda>nv. fst nv = k) (parse_qsl q) \<noteq> []"
    by (auto simp: parse_qs_def split: list.splits)
  then obtain p where "p \<in> set (filter (\<lambda>nv. fst nv = k) (parse_qsl q))"
    by (meson last_in_set)
  then have "(k, snd p) \<in> set (parse_qsl q)" by auto
  then show "\<exists>x. (k, x) \<in> set (parse_qsl q)" ..
next
  assume "\<exists>x. (k, x) \<in> set (parse_qsl q)"
  then show "parse_qs q k \<noteq> None" using qs_present by blast
qed

lemma qs_field_iff:
  "parse_qs q k \<noteq> None \<longleftrightarrow>
     (\<exists>fld \<in> set (split_on CHR ''&'' q). \<exists>n v.
        split_first CHR ''='' fld = Some (n, v) \<and> v \<noteq> [] \<and> unquote (plus_to_space n) = k)"
  unfolding qs_present_iff qsl_member_iff by blast

lemma type_audio_iff:
  "info_media_type (parse_query q) = Some ''audio'' \<longleftrightarrow> parse_qs q ''absoluteAudioUrl'' \<noteq> None"
  by (simp add: parse_query_def Let_def empty_info_def)

lemma type_video_iff:
  "info_media_type (parse_query q) = Some ''video'' \<longleftrightarrow>
     parse_qs q ''absoluteAudioUrl'' = None \<and> parse_qs q ''absoluteVideoUrl'' \<noteq> None"
  by (simp add: parse_query_def Let_def empty_info_def)

text \<open>
  Claim C6. The decoder answers audio exactly when the query of a \<^verbatim>\<open>curefit://\<close> string has a
  field whose name unquotes to \<^verbatim>\<open>absoluteAudioUrl\<close> and whose value is not empty, whatever else
  the query holds; it answers video exactly when there is no such field and there is one for
  \<^verbatim>\<open>absoluteVideoUrl\<close>. So with both keys carrying a value, in either order, the result is
  audio with the audio value unquoted twice; with an empty \<^verbatim>\<open>absoluteAudioUrl=\<close> the key is
  dropped by \<^verbatim>\<open>parse_qs\<close> and the result is video. On the input of the specification the
  decoder returns audio, \<^verbatim>\<open>https://cdn/a.mp3\<close> and the title \<^verbatim>\<open>Calm\<close>.
\<close>

theorem decoder_audio_precedence:
  "(\<forall>u. startswith u ''curefit://'' \<longrightarrow>
      (info_media_type (parse_curefit_url (JStr u)) = Some ''audio'' \<longleftrightarrow>
         (\<exists>fld \<in> set (split_on CHR ''&'' (query_of u)). \<exists>n v.
            split_first CHR ''='' fld = Some (n, v) \<and> v \<noteq> [] \<and>
            unquote (plus_to_space n) = ''absoluteAudioUrl'')) \<and>
      (info_media_type (parse_curefit_url (JStr u)) = Some ''video'' \<longleftrightarrow>
         \<not> (\<exists>fld \<in> set (split_on CHR ''&'' (query_of u)). \<exists>n v.
            split_first CHR ''='' fld = Some (n, v) \<and> v \<noteq> [] \<and>
            unquote (plus_to_space n) = ''absoluteAudioUrl'') \<and>
         (\<exists>fld \<in> set (split_on CHR ''&'' (query_of u)). \<exists>n v.
            split_first CHR ''='' fld = Some (n, v) \<and> v \<noteq> [] \<and>
            unquote (plus_to_space n) = ''absoluteVideoUrl''))) \<and>
   (\<forall>a v. a \<noteq> [] \<and> v \<noteq> [] \<and> CHR ''&'' \<notin> set a \<and> CHR ''&'' \<notin> set v \<longrightarrow>
      parse_curefit_url (JStr (''curefit://x?absoluteAudioUrl='' @ a @ ''&absoluteVideoUrl='' @ v))
      = \<lparr>info_media_url = Some (unquote (unquote (plus_to_space a))),
         info_media_type = Some ''audio'',
         info_session_title = None, info_pack_id = None, info_content_id = None\<rparr> \<and>
      parse_curefit_url (JStr (''curefit://x?absoluteVideoUrl='' @ v @ ''&absoluteAudioUrl='' @ a))
      = \<lparr>info_media_url = Some (unquote (unquote (plus_to_space a))),
         info_media_type = Some ''audio'',
         info_session_title = None, info_pack_id = None, info_content_id = None\<rparr>) \<and>
   (\<forall>v. v \<noteq> [] \<and> CHR ''&'' \<notin> set v \<longrightarrow>
      parse_curefit_url (JStr (''curefit://x?absoluteAudioUrl=&absoluteVideoUrl='' @ v))
      = \<lparr>info_media_url = Some (unquote (unquote (plus_to_space v))),
         info_media_type = Some ''video'',
         info_session_title = None, info_pack_id = None, info_content_id = None\<rparr>) \<and>
   parse_curefit_url (JStr
     ''curefit://x?absoluteAudioUrl=https%3A%2F%2Fcdn%2Fa.mp3&absoluteVideoUrl=https%3A%2F%2Fcdn%2Fb.mp4&title=Calm'')
   = \<lparr>info_media_url = Some ''https://cdn/a.mp3'', info_media_type = Some ''audio'',
      info_session_title = Some ''Calm'', info_pack_id = None, info_content_id = None\<rparr>"
proof -
  have general: "\<And>u. startswith u ''curefit://'' \<Longrightarrow>
      (info_media_type (parse_curefit_url (JStr u)) = Some ''audio'' \<longleftrightarrow>
         (\<exists>fld \<in> set (split_on CHR ''&'' (query_of u)). \<exists>n v.
            split_first CHR ''='' fld = Some (n, v) \<and> v \<noteq> [] \<and>
            unquote (plus_to_space n) = ''absoluteAudioUrl'')) \<and>
      (info_media_type (parse_curefit_url (JStr u)) = Some ''video'' \<longleftrightarrow>
         \<not> (\<exists>fld \<in> set (split_on CHR ''&'' (query_of u)). \<exists>n v.
            split_first CHR ''='' fld = Some (n, v) \<and> v \<noteq> [] \<and>
            unquote (plus_to_space n) = ''absoluteAudioUrl'') \<and>
         (\<exists>fld \<in> set (split_on CHR ''&'' (query_of u)). \<exists>n v.
            split_first CHR ''='' fld = Some (n, v) \<and> v \<noteq> [] \<and>
            unquote (plus_to_space n) = ''absoluteVideoUrl''))"
  proof -
    fix u assume s: "startswith u ''curefit://''"
    then have p: "parse_curefit_url (JStr u) = parse_query (query_of u)" by simp
    show "(info_media_type (parse_curefit_url (JStr u)) = Some ''audio'' \<longleftrightarrow>
         (\<exists>fld \<in> set (split_on CHR ''&'' (query_of u)). \<exists>n v.
            split_first CHR ''='' fld = Some (n, v) \<and> v \<noteq> [] \<and>
            unquote (plus_to_space n) = ''absoluteAudioUrl'')) \<and>
      (info_media_type (parse_curefit_url (JStr u)) = Some ''video'' \<longleftrightarrow>
         \<not> (\<exists>fld \<in> set (split_on CHR ''&'' (query_of u)). \<exists>n v.
            split_first CHR ''='' fld = Some (n, v) \<and> v \<noteq> [] \<and>
            unquote (plus_to_space n) = ''absoluteAudioUrl'') \<and>
         (\<exists>fld \<in> set (split_on CHR ''&'' (query_of u)). \<exists>n v.
            split_first CHR ''='' fld = Some (n, v) \<and> v \<noteq> [] \<and>
            unquote (plus_to_space n) = ''absoluteVideoUrl''))"
      unfolding p type_audio_iff type_video_iff
      using qs_field_iff [of "query_of u" "''absoluteAudioUrl''"]
            qs_field_iff [of "query_of u" "''absoluteVideoUrl''"]
      by blast
  qed
  have both: "\<And>a v. a \<noteq> [] \<and> v \<noteq> [] \<and> CHR ''&'' \<notin> set a \<and> CHR ''&'' \<notin> set v \<Longrightarrow>
      parse_curefit_url (JStr (''curefit://x?absoluteAudioUrl='' @ a @ ''&absoluteVideoUrl='' @ v))
      = \<lparr>info_media_url = Some (unquote (unquote (plus_to_space a))),
         info_media_type = Some ''audio'',
         info_session_title = None, info_pack_id = None, info_content_id = None\<rparr> \<and>
      parse_curefit_url (JStr (''curefit://x?absoluteVideoUrl='' @ v @ ''&absoluteAudioUrl='' @ a))
      = \<lparr>info_media_url = Some (unquote (unquote (plus_to_space a))),
         info_media_type = Some ''audio'',
         info_session_title = None, info_pack_id = None, info_content_id = None\<rparr>"
  proof -
    fix a v :: string
    assume h: "a \<noteq> [] \<and> v \<noteq> [] \<and> CHR ''&'' \<notin> set a \<and> CHR ''&'' \<notin> set v"
    then have a: "a \<noteq> []" and v: "v \<noteq> []" and na: "CHR ''&'' \<notin> set a" and nv: "CHR ''&'' \<notin> set v"
      by simp_all
    from decode_audio_video [OF a v na nv] decode_video_audio [OF a v na nv]
    show "parse_curefit_url (JStr (''curefit://x?absoluteAudioUrl='' @ a @ ''&absoluteVideoUrl='' @ v))
      = \<lparr>info_media_url = Some (unquote (unquote (plus_to_space a))),
         info_media_type = Some ''audio'',
         info_session_title = None, info_pack_id = None, info_content_id = None\<rparr> \<and>
      parse_curefit_url (JStr (''curefit://x?absoluteVideoUrl='' @ v @ ''&absoluteAudioUrl='' @ a))
      = \<lparr>info_media_url = Some (unquote (unquote (plus_to_space a))),
         info_media_type = Some ''audio'',
         info_session_title = None, info_pack_id = None, info_content_id = None\<rparr>"
      by simp
  qed
  have blank: "\<And>v. v \<noteq> [] \<and> CHR ''&'' \<notin> set v \<Longrightarrow>
      parse_curefit_url (JStr (''curefit://x?absoluteAudioUrl=&absoluteVideoUrl='' @ v))
      = \<lparr>info_media_url = Some (unquote (unquote (plus_to_space v))),
         info_media_type = Some ''video'',
         info_session_title = None, info_pack_id = None, info_content_id = None\<rparr>"
  proof -
    fix v :: string
    assume h: "v \<noteq> [] \<and> CHR ''&'' \<notin> set v"
    then have v: "v \<noteq> []" and nv: "CHR ''&'' \<notin> set v" by simp_all
    from decode_blank_audio [OF v nv]
    show "parse_curefit_url (JStr (''curefit://x?absoluteAudioUrl=&absoluteVideoUrl='' @ v))
      = \<lparr>info_media_url = Some (unquote (unquote (plus_to_space v))),
         info_media_type = Some ''video'',
         info_session_title = None, info_pack_id = None, info_content_id = None\<rparr>"
      by simp
  qed
  have spec: "parse_curefit_url (JStr
     ''curefit://x?absoluteAudioUrl=https%3A%2F%2Fcdn%2Fa.mp3&absoluteVideoUrl=https%3A%2F%2Fcdn%2Fb.mp4&title=Calm'')
   = \<lparr>info_media_url = Some ''https://cdn/a.mp3'', info_media_type = Some ''audio'',
      info_session_title = Some ''Calm'', info_pack_id = None, info_content_id = None\<rparr>"
    by code_simp
  show ?thesis
  proof (intro conjI)
    show "\<forall>u. startswith u ''curefit://'' \<longrightarrow>
      (info_media_type (parse_curefit_url (JStr u)) = Some ''audio'' \<longleftrightarrow>
         (\<exists>fld \<in> set (split_on CHR ''&'' (query_of u)). \<exists>n v.
            split_first CHR ''='' fld = Some (n, v) \<and> v \<noteq> [] \<and>
            unquote (plus_to_space n) = ''absoluteAudioUrl'')) \<and>
      (info_media_type (parse_curefit_url (JStr u)) = Some ''video'' \<longleftrightarrow>
         \<not> (\<exists>fld \<in> set (split_on CHR ''&'' (query_of u)). \<exists>n v.
            split_first CHR ''='' fld = Some (n, v) \<and> v \<noteq> [] \<and>
            unquote (plus_to_space n) = ''absoluteAudioUrl'') \<and>
         (\<exists>fld \<in> set (split_on CHR ''&'' (query_of u)). \<exists>n v.
            split_first CHR ''='' fld = Some (n, v) \<and> v \<noteq> [] \<and>
            unquote (plus_to_space n) = ''absoluteVideoUrl''))"
      using general by (intro allI impI)
    show "\<forall>a v. a \<noteq> [] \<and> v \<noteq> [] \<and> CHR ''&'' \<notin> set a \<and> CHR ''&'' \<notin> set v \<longrightarrow>
      parse_curefit_url (JStr (''curefit://x?absoluteAudioUrl='' @ a @ ''&absoluteVideoUrl='' @ v))
      = \<lparr>info_media_url = Some (unquote (unquote (plus_to_space a))),
         info_media_type = Some ''audio'',
         info_session_title = None, info_pack_id = None, info_content_id = None\<rparr> \<and>
      parse_curefit_url (JStr (''curefit://x?absoluteVideoUrl='' @ v @ ''&absoluteAudioUrl='' @ a))
      = \<lparr>info_media_url = Some (unquote (unquote (plus_to_space a))),
         info_media_type = Some ''audio'',
         info_session_title = None, info_pack_id = None, info_content_id = None\<rparr>"
      using both by (intro allI impI)
    show "\<forall>v. v \<noteq> [] \<and> CHR ''&'' \<notin> set v \<longrightarrow>
      parse_curefit_url (JStr (''curefit://x?absoluteAudioUrl=&absoluteVideoUrl='' @ v))
      = \<lparr>info_media_url = Some (unquote (unquote (plus_to_space v))),
         info_media_type = Some ''video'',
         info_session_title = None, info_pack_id = None, info_content_id = None\<rparr>"
      using blank by (intro allI impI)
    show "parse_curefit_url (JStr
     ''curefit://x?absoluteAudioUrl=https%3A%2F%2Fcdn%2Fa.mp3&absoluteVideoUrl=https%3A%2F%2Fcdn%2Fb.mp4&title=Calm'')
   = \<lparr>info_media_url = Some ''https://cdn/a.mp3'', info_media_type = Some ''audio'',
      info_session_title = Some ''Calm'', info_pack_id = None, info_content_id = None\<rparr>"
      by (rule spec)
  qed
qed


theorem decoder_audio_precedence_witness:
  "startswith ''curefit://x?absoluteVideoUrl=b.mp4&absoluteAudioUrl=a.mp3'' ''curefit://'' \<and>
   ''absoluteAudioUrl=a.mp3''
      \<in> set (split_on CHR ''&'' (query_of ''curefit://x?absoluteVideoUrl=b.mp4&absoluteAudioUrl=a.mp3'')) \<and>
   split_first CHR ''='' ''absoluteAudioUrl=a.mp3'' = Some (''absoluteAudioUrl'', ''a.mp3'') \<and>
   ''a.mp3'' \<noteq> [] \<and>
   unquote (plus_to_space ''absoluteAudioUrl'') = ''absoluteAudioUrl'' \<and>
   info_media_type (parse_curefit_url (JStr ''curefit://x?absoluteVideoUrl=b.mp4&absoluteAudioUrl=a.mp3''))
      = Some ''audio'' \<and>
   info_media_type (parse_curefit_url (JStr ''curefit://x?absoluteVideoUrl=b.mp4&absoluteAudioUrl=a.mp3''))
      \<noteq> Some ''video'' \<and>
   CHR ''&'' \<notin> set ''a.mp3'' \<and> ''b.mp4'' \<noteq> [] \<and> CHR ''&'' \<notin> set ''b.mp4'' \<and>
   parse_curefit_url (JStr (''curefit://x?absoluteAudioUrl='' @ ''a.mp3'' @ ''&absoluteVideoUrl='' @ ''b.mp4''))
      = \<lparr>info_media_url = Some (unquote (unquote (plus_to_space ''a.mp3''))),
         info_media_type = Some ''audio'',
         info_session_title = None, info_pack_id = None, info_content_id = None\<rparr> \<and>
   parse_curefit_url (JStr (''curefit://x?absoluteVideoUrl='' @ ''b.mp4'' @ ''&absoluteAudioUrl='' @ ''a.mp3''))
      = \<lparr>info_media_url = Some (unquote (unquote (plus_to_space ''a.mp3''))),
         info_media_type = Some ''audio'',
         info_session_title = None, info_pack_id = None, info_content_id = None\<rparr> \<and>
   parse_curefit_url (JStr (''curefit://x?absoluteAudioUrl=&absoluteVideoUrl='' @ ''b.mp4''))
      = \<lparr>info_media_url = Some (unquote (unquote (plus_to_space ''b.mp4''))),
         info_media_type = Some ''video'',
         info_session_title = None, info_pack_id = None, info_content_id = None\<rparr>"
proof -
  let ?u = "''curefit://x?absoluteVideoUrl=b.mp4&absoluteAudioUrl=a.mp3''"
  have h1: "startswith ?u ''curefit://''" by code_simp
  have h2: "''absoluteAudioUrl=a.mp3'' \<in> set (split_on CHR ''&'' (query_of ?u))" by code_simp
  have h3: "split_first CHR ''='' ''absoluteAudioUrl=a.mp3'' = Some (''absoluteAudioUrl'', ''a.mp3'')"
    by code_simp
  have h4: "''a.mp3'' \<noteq> []" by simp
  have h5: "unquote (plus_to_space ''absoluteAudioUrl'') = ''absoluteAudioUrl''" by code_simp
  have a: "''a.mp3'' \<noteq> [] \<and> ''b.mp4'' \<noteq> [] \<and> CHR ''&'' \<notin> set ''a.mp3'' \<and> CHR ''&'' \<notin> set ''b.mp4''"
    by simp
  have b: "''b.mp4'' \<noteq> [] \<and> CHR ''&'' \<notin> set ''b.mp4''" by simp
  note t = decoder_audio_precedence
  from t have g: "startswith ?u ''curefit://'' \<longrightarrow>
      (info_media_type (parse_curefit_url (JStr ?u)) = Some ''audio'' \<longleftrightarrow>
         (\<exists>fld \<in> set (split_on CHR ''&'' (query_of ?u)). \<exists>n v.
            split_first CHR ''='' fld = Some (n, v) \<and> v \<noteq> [] \<and>
            unquote (plus_to_space n) = ''absoluteAudioUrl'')) \<and>
      (info_media_type (parse_curefit_url (JStr ?u)) = Some ''video'' \<longleftrightarrow>
         \<not> (\<exists>fld \<in> set (split_on CHR ''&'' (query_of ?u)). \<exists>n v.
            split_first CHR ''='' fld = Some (n, v) \<and> v \<noteq> [] \<and>
            unquote (plus_to_space n) = ''absoluteAudioUrl'') \<and>
         (\<exists>fld \<in> set (split_on CHR ''&'' (query_of ?u)). \<exists>n v.
            split_first CHR ''='' fld = Some (n, v) \<and> v \<noteq> [] \<and>
            unquote (plus_to_space n) = ''absoluteVideoUrl''))"
    by (elim conjE allE [of _ "?u"])
  have ex: "\<exists>fld \<in> set (split_on CHR ''&'' (query_of ?u)). \<exists>n v.
            split_first CHR ''='' fld = Some (n, v) \<and> v \<noteq> [] \<and>
            unquote (plus_to_space n) = ''absoluteAudioUrl''"
    using h2 h3 h4 h5 by blast
  from g h1 ex have r1: "info_media_type (parse_curefit_url (JStr ?u)) = Some ''audio''" by blast
  from g h1 ex have r2: "info_media_type (parse_curefit_url (JStr ?u)) \<noteq> Some ''video''" by blast
  from t have fam: "''a.mp3'' \<noteq> [] \<and> ''b.mp4'' \<noteq> [] \<and> CHR ''&'' \<notin> set ''a.mp3'' \<and> CHR ''&'' \<notin> set ''b.mp4'' \<longrightarrow>
      parse_curefit_url (JStr (''curefit://x?absoluteAudioUrl='' @ ''a.mp3'' @ ''&absoluteVideoUrl='' @ ''b.mp4''))
      = \<lparr>info_media_url = Some (unquote (unquote (plus_to_space ''a.mp3''))),
         info_media_type = Some ''audio'',
         info_session_title = None, info_pack_id = None, info_content_id = None\<rparr> \<and>
      parse_curefit_url (JStr (''curefit://x?absoluteVideoUrl='' @ ''b.mp4'' @ ''&absoluteAudioUrl='' @ ''a.mp3''))
      = \<lparr>info_media_url = Some (unquote (unquote (plus_to_space ''a.mp3''))),
         info_media_type = Some ''audio'',
         info_session_title = None, info_pack_id = None, info_content_id = None\<rparr>"
    by (elim conjE allE [of _ "''a.mp3''"] allE [of _ "''b.mp4''"])
  from t have bl: "''b.mp4'' \<noteq> [] \<and> CHR ''&'' \<notin> set ''b.mp4'' \<longrightarrow>
      parse_curefit_url (JStr (''curefit://x?absoluteAudioUrl=&absoluteVideoUrl='' @ ''b.mp4''))
      = \<lparr>info_media_url = Some (unquote (unquote (plus_to_space ''b.mp4''))),
         info_media_type = Some ''video'',
         info_session_title = None, info_pack_id = None, info_content_id = None\<rparr>"
    by (elim conjE allE [of _ "''b.mp4''"])
  from fam a have r3:
     "parse_curefit_url (JStr (''curefit://x?absoluteAudioUrl='' @ ''a.mp3'' @ ''&absoluteVideoUrl='' @ ''b.mp4''))
      = \<lparr>info_media_url = Some (unquote (unquote (plus_to_space ''a.mp3''))),
         info_media_type = Some ''audio'',
         info_session_title = None, info_pack_id = None, info_content_id = None\<rparr>"
    and r4: "parse_curefit_url (JStr (''curefit://x?absoluteVideoUrl='' @ ''b.mp4'' @ ''&absoluteAudioUrl='' @ ''a.mp3''))
      = \<lparr>info_media_url = Some (unquote (unquote (plus_to_space ''a.mp3''))),
         info_media_type = Some ''audio'',
         info_session_title = None, info_pack_id = None, info_content_id = None\<rparr>"
    by blast+
  from bl b have r5: "parse_curefit_url (JStr (''curefit://x?absoluteAudioUrl=&absoluteVideoUrl='' @ ''b.mp4''))
      = \<lparr>info_media_url = Some (unquote (unquote (plus_to_space ''b.mp4''))),
         info_media_type = Some ''video'',
         info_session_title = None, info_pack_id = None, info_content_id = None\<rparr>"
    by blast
  have a1: "CHR ''&'' \<notin> set ''a.mp3''" and a2: "''b.mp4'' \<noteq> []" and a3: "CHR ''&'' \<notin> set ''b.mp4''"
    by simp_all
  show ?thesis
    by (intro conjI) (rule h1 h2 h3 h4 h5 r1 r2 a1 a2 a3 r3 r4 r5)+
qed

text \<open>
  Both keys are written in the query, the audio one with an empty value: the decoder selects
  video.
\<close>

theorem decoder_audio_precedence_counterexample:
  "parse_curefit_url (JStr
     ''curefit://x?absoluteAudioUrl=&absoluteVideoUrl=https%3A%2F%2Fcdn%2Fb.mp4'')
   = \<lparr>info_media_url = Some ''https://cdn/b.mp4'', info_media_type = Some ''video'',
      info_session_title = None, info_pack_id = None, info_content_id = None\<rparr>"
  by code_simp

section \<open>Properties of the state extractor\<close>

text \<open>
  Claim C5 at a page whose state holds a closing brace inside a string: the counting loop
  takes that brace for the end of the object, the text handed to the decoder stops
  there, the decoder rejects it, and no state is returned, although the decoder reads
  the assigned object itself.
\<close>

theorem brace_in_string_loses_state:
  \<open>json_candidate (Some (''window.__PRELOADED_STATE__ = '' @ brace_json)) = Some ''{"a": "}''
   \<and> json_loads brace_env brace_json = Inr [(''a'', JStr ''}'')]
   \<and> extract_preloaded_state brace_env
        (''<script>window.__PRELOADED_STATE__ = '' @ brace_json @ ''</script>'') = Inr None\<close>
  by code_simp

section \<open>Properties of the item resolver\<close>

lemma make_media_fields:
  assumes "make_media E sec pt pd t ty u = Inr m"
  shows "session_title m = t \<and> media_type m = ty \<and> cdn_url m = u"
  using assms unfolding make_media_def
  by (cases "build_local_path E sec pt t u") auto

lemma info_media_fields:
  assumes "info_media E sec pt pd nfo mu d = Inr m"
  shows "session_title m = (case info_session_title nfo of Some t \<Rightarrow> JStr t | None \<Rightarrow> d)
       \<and> media_type m = (case info_media_type nfo of Some t \<Rightarrow> t | None \<Rightarrow> ''audio'')
       \<and> cdn_url m = mu"
  using assms unfolding info_media_def by (rule make_media_fields)

lemma ebind_Inr:
  assumes "ebind m f = (Inr y, w')"
  obtains x w where "m = (Inr x, w)" and "f x w = (Inr y, w')"
  using assms unfolding ebind_def by (cases m; cases "fst m") auto

lemma resolve_refs:
  assumes "resolve_sources E sec pt pd srcs w = (Inr ms, w')"
  shows "map (\<lambda>m. (session_title m, media_type m, cdn_url m)) ms =
     concat (map (\<lambda>(play_url, default_title).
        case info_media_url (parse_curefit_url play_url) of
          None \<Rightarrow> []
        | Some mu \<Rightarrow>
            [(case info_session_title (parse_curefit_url play_url) of
                Some t \<Rightarrow> JStr t | None \<Rightarrow> default_title,
              case info_media_type (parse_curefit_url play_url) of
                Some t \<Rightarrow> t | None \<Rightarrow> ''audio'',
              mu)]) srcs)"
  using assms
proof (induction srcs arbitrary: w ms)
  case Nil
  then show ?case by simp
next
  case (Cons s rest)
  obtain p d where s: "s = (p, d)" by (cases s)
  show ?case
  proof (cases "info_media_url (parse_curefit_url p)")
    case None
    with Cons.prems s
    have "resolve_sources E sec pt pd rest (if is_login_modal p \<and> \<not> w then True else w) = (Inr ms, w')"
      by (simp add: Let_def)
    from Cons.IH [OF this] None s show ?thesis by simp
  next
    case (Some mu)
    with Cons.prems s
    have e: "ebind (info_media E sec pt pd (parse_curefit_url p) mu d, w) (\<lambda>m w1.
          ebind (resolve_sources E sec pt pd rest w1) (\<lambda>ms w2.
          (Inr (m # ms), w2))) = (Inr ms, w')"
      by (simp add: Let_def)
    from e obtain m w1 where m: "(info_media E sec pt pd (parse_curefit_url p) mu d, w) = (Inr m, w1)"
      and r: "ebind (resolve_sources E sec pt pd rest w1) (\<lambda>ms w2. (Inr (m # ms), w2)) = (Inr ms, w')"
      by (rule ebind_Inr)
    from r obtain ms' w2 where r': "resolve_sources E sec pt pd rest w1 = (Inr ms', w2)"
      and c: "(Inr (m # ms'), w2) = (Inr ms :: error + media list, w')"
      by (rule ebind_Inr)
    from c have ms: "ms = m # ms'" and "w2 = w'" by simp_all
    with r' have r'': "resolve_sources E sec pt pd rest w1 = (Inr ms', w')" by simp
    from m have "info_media E sec pt pd (parse_curefit_url p) mu d = Inr m" by simp
    from info_media_fields [OF this] Cons.IH [OF r''] Some s ms show ?thesis by simp
  qed
qed

lemma scan_element_sources:
  assumes "scan_element E sec pt pd idx c = Inr r"
  shows "snd r = (case c of
            JDict d \<Rightarrow>
              if has_key d ''playAction''
              then [(get d ''playAction'',
                     get_or d ''title'' (JStr (''Session '' @ str_of_nat (idx + 1))))]
              else []
          | _ \<Rightarrow> [])"
proof (cases c)
  case (JDict d)
  with assms show ?thesis
    by (auto simp: Let_def sbind_def split: if_splits json.splits sum.splits)
qed (use assms in auto)

lemma scan_list_sources:
  assumes "scan_list E sec pt pd idx cs = Inr r"
  shows "snd r = concat (map (\<lambda>(i, c).
            case c of
              JDict d \<Rightarrow>
                if has_key d ''playAction''
                then [(get d ''playAction'',
                       get_or d ''title'' (JStr (''Session '' @ str_of_nat (i + 1))))]
                else []
            | _ \<Rightarrow> []) (enumerate idx cs))"
  using assms
proof (induction cs arbitrary: idx r)
  case Nil
  then show ?case by auto
next
  case (Cons c rest)
  from Cons.prems obtain r1 where r1: "scan_element E sec pt pd idx c = Inr r1"
    by (cases "scan_element E sec pt pd idx c") simp_all
  with Cons.prems obtain r2 where r2: "scan_list E sec pt pd (idx + 1) rest = Inr r2"
    by (cases "scan_list E sec pt pd (idx + 1) rest") simp_all
  from Cons.prems r1 r2 have r: "snd r = snd r1 @ snd r2" by auto
  from Cons.IH [OF r2] scan_element_sources [OF r1] r show ?case by simp
qed

lemma scan_content_sources:
  assumes "scan_content E sec pt pd content = Inr r"
  shows "snd r = (case content of
            JList cs \<Rightarrow> concat (map (\<lambda>(i, c).
              case c of
                JDict d \<Rightarrow>
                  if has_key d ''playAction''
                  then [(get d ''playAction'',
                         get_or d ''title'' (JStr (''Session '' @ str_of_nat (i + 1))))]
                  else []
              | _ \<Rightarrow> []) (enumerate 0 cs))
          | _ \<Rightarrow> [])"
proof (cases content)
  case (JList cs)
  with assms have "scan_list E sec pt pd 0 cs = Inr r" by simp
  from scan_list_sources [OF this] JList show ?thesis by simp
next
  case (JDict d)
  with assms show ?thesis
    by (auto simp: sbind_def split: json.splits sum.splits)
qed (use assms in auto)

lemma discovered_parts:
  assumes "discovered E item sec pt pd w = (Inr xs, w')"
  shows "\<exists>scanned walked extra w1 decoded.
      scan_content E sec pt pd (get item ''content'') = Inr scanned \<and>
      collect_media_recursive E (walker_frames E) sec pt pd (get item ''content'') JNull = Inr walked \<and>
      detail_step E item sec pt pd w = (Inr extra, w1) \<and>
      resolve_sources E sec pt pd (item_sources item @ snd scanned) w1 = (Inr decoded, w') \<and>
      xs = fst scanned @ walked @ extra @ decoded"
  using assms unfolding discovered_def
  by (auto simp: ebind_def split: sum.splits prod.splits)













lemma page_unresolved:
  assumes "http_get E pack_url = Inr text" "extract_preloaded_state E text = Inr None"
  shows "detail_body E pack_url sec pt pd w = (Inr [], w)"
  using assms by (simp add: detail_body_def)


text \<open>
  Claim C1, as the code has it. The action references of step 1 are only collected
  first; they are decoded last. Whenever the discovery returns, the sequence before the
  de-duplication is, in this order: the direct-URL references of the content field
  (steps 2 and 3), the references of the tree walker (step 4), the references of the
  detail page (step 5), and then the references decoded from the collected actions.
  These last ones are, in this order and for every action whose decoding has a media URL:
  the item's intro action (default title \<^verbatim>\<open>Intro\<close>), the item's play action (default
  title \<^verbatim>\<open>Main\<close>), and the play actions of the dicts of a list-valued content field in
  the order of the list (default title \<^verbatim>\<open>Session\<close> and the position counted from one);
  each with the title, media type and URL that the decoder gives.
\<close>

theorem discovery_order:
  assumes "discovered E item sec pt pd w = (Inr xs, w')"
  shows "\<exists>scanned walked extra w1 decoded.
      scan_content E sec pt pd (get item ''content'') = Inr scanned \<and>
      collect_media_recursive E (walker_frames E) sec pt pd (get item ''content'') JNull = Inr walked \<and>
      detail_step E item sec pt pd w = (Inr extra, w1) \<and>
      xs = fst scanned @ walked @ extra @ decoded \<and>
      map (\<lambda>m. (session_title m, media_type m, cdn_url m)) decoded =
        concat (map (\<lambda>(play_url, default_title).
            case info_media_url (parse_curefit_url play_url) of
              None \<Rightarrow> []
            | Some mu \<Rightarrow>
                [(case info_session_title (parse_curefit_url play_url) of
                    Some t \<Rightarrow> JStr t | None \<Rightarrow> default_title,
                  case info_media_type (parse_curefit_url play_url) of
                    Some t \<Rightarrow> t | None \<Rightarrow> ''audio'',
                  mu)])
          ((if has_key item ''packIntroAction''
            then [(get item ''packIntroAction'', JStr ''Intro'')] else [])
           @ (if has_key item ''playAction''
              then [(get item ''playAction'', JStr ''Main'')] else [])
           @ (case get item ''content'' of
                JList cs \<Rightarrow> concat (map (\<lambda>(i, c).
                  case c of
                    JDict d \<Rightarrow>
                      if has_key d ''playAction''
                      then [(get d ''playAction'',
                             get_or d ''title'' (JStr (''Session '' @ str_of_nat (i + 1))))]
                      else []
                  | _ \<Rightarrow> []) (enumerate 0 cs))
              | _ \<Rightarrow> [])))"
proof -
  from discovered_parts [OF assms] obtain scanned walked extra w1 decoded where
      s: "scan_content E sec pt pd (get item ''content'') = Inr scanned"
  and k: "collect_media_recursive E (walker_frames E) sec pt pd (get item ''content'') JNull = Inr walked"
  and d: "detail_step E item sec pt pd w = (Inr extra, w1)"
  and r: "resolve_sources E sec pt pd (item_sources item @ snd scanned) w1 = (Inr decoded, w')"
  and x: "xs = fst scanned @ walked @ extra @ decoded"
    by blast
  have src: "item_sources item @ snd scanned =
      (if has_key item ''packIntroAction''
            then [(get item ''packIntroAction'', JStr ''Intro'')] else [])
           @ (if has_key item ''playAction''
              then [(get item ''playAction'', JStr ''Main'')] else [])
           @ (case get item ''content'' of
                JList cs \<Rightarrow> concat (map (\<lambda>(i, c).
                  case c of
                    JDict d \<Rightarrow>
                      if has_key d ''playAction''
                      then [(get d ''playAction'',
                             get_or d ''title'' (JStr (''Session '' @ str_of_nat (i + 1))))]
                      else []
                  | _ \<Rightarrow> []) (enumerate 0 cs))
              | _ \<Rightarrow> [])"
    unfolding item_sources_def scan_content_sources [OF s] by simp
  from resolve_refs [OF r] have m: "map (\<lambda>m. (session_title m, media_type m, cdn_url m)) decoded =
        concat (map (\<lambda>(play_url, default_title).
            case info_media_url (parse_curefit_url play_url) of
              None \<Rightarrow> []
            | Some mu \<Rightarrow>
                [(case info_session_title (parse_curefit_url play_url) of
                    Some t \<Rightarrow> JStr t | None \<Rightarrow> default_title,
                  case info_media_type (parse_curefit_url play_url) of
                    Some t \<Rightarrow> t | None \<Rightarrow> ''audio'',
                  mu)])
          ((if has_key item ''packIntroAction''
            then [(get item ''packIntroAction'', JStr ''Intro'')] else [])
           @ (if has_key item ''playAction''
              then [(get item ''playAction'', JStr ''Main'')] else [])
           @ (case get item ''content'' of
                JList cs \<Rightarrow> concat (map (\<lambda>(i, c).
                  case c of
                    JDict d \<Rightarrow>
                      if has_key d ''playAction''
                      then [(get d ''playAction'',
                             get_or d ''title'' (JStr (''Session '' @ str_of_nat (i + 1))))]
                      else []
                  | _ \<Rightarrow> []) (enumerate 0 cs))
              | _ \<Rightarrow> [])))"
    unfolding src .
  from s k d x m show ?thesis by (intro exI conjI)
qed

theorem discovery_order_witness:
  "discovered offline_env both_actions_item ''Sleep'' (JStr ''Pack A'') (JStr []) False
   = (Inr [\<lparr>section_name = ''Sleep'', pack = JStr ''Pack A'', pack_description = JStr [],
             session_title = JStr ''Day 2'', media_type = ''audio'',
             cdn_url = ''https://cdn/d2.mp3'', local_path = ''media/Sleep/Pack_A/Day_2.mp3''\<rparr>,
           \<lparr>section_name = ''Sleep'', pack = JStr ''Pack A'', pack_description = JStr [],
             session_title = JStr ''Day 2'', media_type = ''audio'',
             cdn_url = ''https://cdn/d2.mp3'', local_path = ''media/Sleep/Pack_A/Day_2.mp3''\<rparr>,
           \<lparr>section_name = ''Sleep'', pack = JStr ''Pack A'', pack_description = JStr [],
             session_title = JStr ''Welcome'', media_type = ''video'',
             cdn_url = ''https://cdn/intro.mp4'', local_path = ''media/Sleep/Pack_A/Welcome.mp4''\<rparr>,
           \<lparr>section_name = ''Sleep'', pack = JStr ''Pack A'', pack_description = JStr [],
             session_title = JStr ''Main'', media_type = ''audio'',
             cdn_url = ''https://cdn/main.mp3'', local_path = ''media/Sleep/Pack_A/Main.mp3''\<rparr>,
           \<lparr>section_name = ''Sleep'', pack = JStr ''Pack A'', pack_description = JStr [],
             session_title = JStr ''Session 1'', media_type = ''audio'',
             cdn_url = ''https://cdn/d1.mp3'', local_path = ''media/Sleep/Pack_A/Session_1.mp3''\<rparr>],
      False)
   \<and> (\<exists>front decoded.
        [\<lparr>section_name = ''Sleep'', pack = JStr ''Pack A'', pack_description = JStr [],
             session_title = JStr ''Day 2'', media_type = ''audio'',
             cdn_url = ''https://cdn/d2.mp3'', local_path = ''media/Sleep/Pack_A/Day_2.mp3''\<rparr>,
           \<lparr>section_name = ''Sleep'', pack = JStr ''Pack A'', pack_description = JStr [],
             session_title = JStr ''Day 2'', media_type = ''audio'',
             cdn_url = ''https://cdn/d2.mp3'', local_path = ''media/Sleep/Pack_A/Day_2.mp3''\<rparr>,
           \<lparr>section_name = ''Sleep'', pack = JStr ''Pack A'', pack_description = JStr [],
             session_title = JStr ''Welcome'', media_type = ''video'',
             cdn_url = ''https://cdn/intro.mp4'', local_path = ''media/Sleep/Pack_A/Welcome.mp4''\<rparr>,
           \<lparr>section_name = ''Sleep'', pack = JStr ''Pack A'', pack_description = JStr [],
             session_title = JStr ''Main'', media_type = ''audio'',
             cdn_url = ''https://cdn/main.mp3'', local_path = ''media/Sleep/Pack_A/Main.mp3''\<rparr>,
           \<lparr>section_name = ''Sleep'', pack = JStr ''Pack A'', pack_description = JStr [],
             session_title = JStr ''Session 1'', media_type = ''audio'',
             cdn_url = ''https://cdn/d1.mp3'', local_path = ''media/Sleep/Pack_A/Session_1.mp3''\<rparr>]
        = front @ decoded \<and>
        map (\<lambda>m. (session_title m, media_type m, cdn_url m)) decoded =
          [(JStr ''Welcome'', ''video'', ''https://cdn/intro.mp4''),
           (JStr ''Main'', ''audio'', ''https://cdn/main.mp3''),
           (JStr ''Session 1'', ''audio'', ''https://cdn/d1.mp3'')])"
proof -
  let ?xs = "[\<lparr>section_name = ''Sleep'', pack = JStr ''Pack A'', pack_description = JStr [],
             session_title = JStr ''Day 2'', media_type = ''audio'',
             cdn_url = ''https://cdn/d2.mp3'', local_path = ''media/Sleep/Pack_A/Day_2.mp3''\<rparr>,
           \<lparr>section_name = ''Sleep'', pack = JStr ''Pack A'', pack_description = JStr [],
             session_title = JStr ''Day 2'', media_type = ''audio'',
             cdn_url = ''https://cdn/d2.mp3'', local_path = ''media/Sleep/Pack_A/Day_2.mp3''\<rparr>,
           \<lparr>section_name = ''Sleep'', pack = JStr ''Pack A'', pack_description = JStr [],
             session_title = JStr ''Welcome'', media_type = ''video'',
             cdn_url = ''https://cdn/intro.mp4'', local_path = ''media/Sleep/Pack_A/Welcome.mp4''\<rparr>,
           \<lparr>section_name = ''Sleep'', pack = JStr ''Pack A'', pack_description = JStr [],
             session_title = JStr ''Main'', media_type = ''audio'',
             cdn_url = ''https://cdn/main.mp3'', local_path = ''media/Sleep/Pack_A/Main.mp3''\<rparr>,
           \<lparr>section_name = ''Sleep'', pack = JStr ''Pack A'', pack_description = JStr [],
             session_title = JStr ''Session 1'', media_type = ''audio'',
             cdn_url = ''https://cdn/d1.mp3'', local_path = ''media/Sleep/Pack_A/Session_1.mp3''\<rparr>]"
  have e: "discovered offline_env both_actions_item ''Sleep'' (JStr ''Pack A'') (JStr []) False
     = (Inr ?xs, False)"
    by code_simp
  let ?refs = "concat (map (\<lambda>(play_url, default_title).
            case info_media_url (parse_curefit_url play_url) of
              None \<Rightarrow> []
            | Some mu \<Rightarrow>
                [(case info_session_title (parse_curefit_url play_url) of
                    Some t \<Rightarrow> JStr t | None \<Rightarrow> default_title,
                  case info_media_type (parse_curefit_url play_url) of
                    Some t \<Rightarrow> t | None \<Rightarrow> ''audio'',
                  mu)])
          ((if has_key both_actions_item ''packIntroAction''
            then [(get both_actions_item ''packIntroAction'', JStr ''Intro'')] else [])
           @ (if has_key both_actions_item ''playAction''
              then [(get both_actions_item ''playAction'', JStr ''Main'')] else [])
           @ (case get both_actions_item ''content'' of
                JList cs \<Rightarrow> concat (map (\<lambda>(i, c).
                  case c of
                    JDict d \<Rightarrow>
                      if has_key d ''playAction''
                      then [(get d ''playAction'',
                             get_or d ''title'' (JStr (''Session '' @ str_of_nat (i + 1))))]
                      else []
                  | _ \<Rightarrow> []) (enumerate 0 cs))
              | _ \<Rightarrow> [])))"
  have c: "?refs
      = [(JStr ''Welcome'', ''video'', ''https://cdn/intro.mp4''),
           (JStr ''Main'', ''audio'', ''https://cdn/main.mp3''),
           (JStr ''Session 1'', ''audio'', ''https://cdn/d1.mp3'')]"
    by code_simp
  from discovery_order [OF e] obtain scanned walked extra w1 decoded where
    parts: "scan_content offline_env ''Sleep'' (JStr ''Pack A'') (JStr []) (get both_actions_item ''content'') = Inr scanned \<and>
      collect_media_recursive offline_env (walker_frames offline_env) ''Sleep'' (JStr ''Pack A'') (JStr [])
        (get both_actions_item ''content'') JNull = Inr walked \<and>
      detail_step offline_env both_actions_item ''Sleep'' (JStr ''Pack A'') (JStr []) False = (Inr extra, w1) \<and>
      ?xs = fst scanned @ walked @ extra @ decoded \<and>
      map (\<lambda>m. (session_title m, media_type m, cdn_url m)) decoded = ?refs"
    by (elim exE) (erule that)
  from parts have x: "?xs = fst scanned @ walked @ extra @ decoded"
    by (elim conjE)
  from parts have m: "map (\<lambda>m. (session_title m, media_type m, cdn_url m)) decoded = ?refs"
    by (elim conjE)
  from x have x': "?xs = (fst scanned @ walked @ extra) @ decoded" by (simp only: append_assoc)
  from m have m': "map (\<lambda>m. (session_title m, media_type m, cdn_url m)) decoded =
          [(JStr ''Welcome'', ''video'', ''https://cdn/intro.mp4''),
           (JStr ''Main'', ''audio'', ''https://cdn/main.mp3''),
           (JStr ''Session 1'', ''audio'', ''https://cdn/d1.mp3'')]"
    unfolding c .
  from x' m' have "\<exists>front decoded. ?xs = front @ decoded \<and>
        map (\<lambda>m. (session_title m, media_type m, cdn_url m)) decoded =
          [(JStr ''Welcome'', ''video'', ''https://cdn/intro.mp4''),
           (JStr ''Main'', ''audio'', ''https://cdn/main.mp3''),
           (JStr ''Session 1'', ''audio'', ''https://cdn/d1.mp3'')]"
    by (intro exI conjI)
  with e show ?thesis by (rule conjI)
qed

text \<open>
  Claim C1 as stated fails: the reference decoded from the item's play action (step 1,
  default title \<^verbatim>\<open>Main\<close>) comes after the references that steps 3 and 4 found in the
  content field.
\<close>

theorem discovery_order_counterexample:
  "fst (discovered offline_env
     [(''playAction'', JStr ''curefit://x?absoluteAudioUrl=https%3A%2F%2Fcdn%2Fmain.mp3''),
      (''content'', JDict [(''downloadUrl'', JStr ''https://cdn/s1.mp3'')])]
     ''Sleep'' (JStr ''Pack A'') (JStr []) False)
   = Inr [\<lparr>section_name = ''Sleep'', pack = JStr ''Pack A'', pack_description = JStr [],
            session_title = JStr ''Session'', media_type = ''audio'',
            cdn_url = ''https://cdn/s1.mp3'', local_path = ''media/Sleep/Pack_A/Session.mp3''\<rparr>,
          \<lparr>section_name = ''Sleep'', pack = JStr ''Pack A'', pack_description = JStr [],
            session_title = JStr ''Session'', media_type = ''audio'',
            cdn_url = ''https://cdn/s1.mp3'', local_path = ''media/Sleep/Pack_A/Session.mp3''\<rparr>,
          \<lparr>section_name = ''Sleep'', pack = JStr ''Pack A'', pack_description = JStr [],
            session_title = JStr ''Main'', media_type = ''audio'',
            cdn_url = ''https://cdn/main.mp3'', local_path = ''media/Sleep/Pack_A/Main.mp3''\<rparr>]"
  by code_simp



end
